theory Spec2Isabelle
  imports Main
begin

section \<open>Python string primitives used by \<open>fetch_hackernews_step.py\<close>\<close>

text \<open>
  A Python \<open>str\<close> is a sequence of code points; it is modelled as a \<open>string\<close> in which
  every \<open>char\<close> stands for one code point (so the model covers text whose code points are
  below 256, and \<open>length\<close> counts what Python's \<open>len\<close> counts there).
\<close>

text \<open>
  \<open>str.strip()\<close> without an argument removes leading and trailing whitespace. The code
  points below 256 that Python treats as whitespace are TAB, LF, VT, FF, CR, the
  separators FS, GS, RS, US, the space, NEL (0x85) and the no-break space (0xA0).
\<close>

definition is_space :: "char \<Rightarrow> bool" where
  "is_space c = (of_char c \<in> {9, 10, 11, 12, 13, 28, 29, 30, 31, 32, 133, 160 :: nat})"

definition strip :: "string \<Rightarrow> string" where
  "strip s = rev (dropWhile is_space (rev (dropWhile is_space s)))"

text \<open>
  The pattern \<open><[^>]+>\<close>: a \<open><\<close>, one or more characters other than \<open>>\<close>, and a
  \<open>>\<close>. \<open>tag_end cs\<close> is called on the text after a \<open><\<close>; when a tag matches there it
  returns the text after the closing \<open>>\<close>. The character class cannot cross a \<open>>\<close>, so
  the match, when there is one, ends at the first \<open>>\<close>.
\<close>

fun tag_end :: "string \<Rightarrow> string option" where
  "tag_end [] = None"
| "tag_end (c # cs) =
     (if c = CHR ''>'' then None
      else (case dropWhile (\<lambda>x. x \<noteq> CHR ''>'') cs of
              [] \<Rightarrow> None
            | _ # rest \<Rightarrow> Some rest))"

lemma tag_end_shorter [termination_simp]:
  "tag_end cs = Some rest \<Longrightarrow> length rest < Suc (length cs)"
proof (cases cs)
  case Nil
  assume "tag_end cs = Some rest"
  with Nil show ?thesis by simp
next
  case (Cons c cs')
  assume h: "tag_end cs = Some rest"
  from h Cons obtain x where d: "dropWhile (\<lambda>x. x \<noteq> CHR ''>'') cs' = x # rest"
    by (auto split: if_splits list.splits)
  have "length (dropWhile (\<lambda>x. x \<noteq> CHR ''>'') cs') \<le> length cs'"
    by (rule length_dropWhile_le)
  with d Cons show ?thesis by simp
qed

text \<open>
  \<open>re.sub(r"<[^>]+>", repl, text)\<close>: the matches are found from left to right and do not
  overlap; every match is replaced by \<open>repl\<close>, every other character is kept.
\<close>

fun re_sub_tags :: "string \<Rightarrow> string \<Rightarrow> string" where
  "re_sub_tags repl [] = []"
| "re_sub_tags repl (c # cs) =
     (if c = CHR ''<'' then
        (case tag_end cs of
           Some rest \<Rightarrow> repl @ re_sub_tags repl rest
         | None \<Rightarrow> c # re_sub_tags repl cs)
      else c # re_sub_tags repl cs)"

text \<open>
  \<open>strip_prefix sep s\<close> is the rest of \<open>s\<close> after a leading \<open>sep\<close>, when \<open>s\<close> starts with
  \<open>sep\<close>.
\<close>

fun strip_prefix :: "string \<Rightarrow> string \<Rightarrow> string option" where
  "strip_prefix [] s = Some s"
| "strip_prefix (p # ps) [] = None"
| "strip_prefix (p # ps) (c # cs) = (if p = c then strip_prefix ps cs else None)"

lemma strip_prefix_length:
  "strip_prefix sep s = Some rest \<Longrightarrow> length rest + length sep = length s"
  by (induction sep s rule: strip_prefix.induct) (auto split: if_splits)

lemma strip_prefix_shorter [termination_simp]:
  "strip_prefix (p # ps) (c # cs) = Some rest \<Longrightarrow> length rest < Suc (length cs)"
  using strip_prefix_length [of "p # ps" "c # cs" rest] by simp

text \<open>
  \<open>s.split(sep)\<close> with a separator: the occurrences of \<open>sep\<close> are found from left to
  right and do not overlap, the result is never empty (\<open>"".split(sep) == [""]\<close>). Python
  raises \<open>ValueError\<close> on an empty separator; the program only splits on \<open>"<p>"\<close> and
  \<open>"|"\<close>, and the model returns the empty list there.
\<close>

fun py_split :: "string \<Rightarrow> string \<Rightarrow> string list" where
  "py_split [] s = []"
| "py_split (p # ps) [] = [[]]"
| "py_split (p # ps) (c # cs) =
     (case strip_prefix (p # ps) (c # cs) of
        Some rest \<Rightarrow> [] # py_split (p # ps) rest
      | None \<Rightarrow>
          (case py_split (p # ps) cs of
             [] \<Rightarrow> [[c]]
           | f # fs \<Rightarrow> (c # f) # fs))"

text \<open>\<open>str(n)\<close> for an integer: its decimal digits, with a minus sign when negative.\<close>

fun str_nat :: "nat \<Rightarrow> string" where
  "str_nat n =
     (if n < 10 then [char_of (48 + n)]
      else str_nat (n div 10) @ [char_of (48 + n mod 10)])"

declare str_nat.simps [simp del]

definition str_int :: "int \<Rightarrow> string" where
  "str_int i = (if i < 0 then CHR ''-'' # str_nat (nat (- i)) else str_nat (nat i))"

section \<open>The data model\<close>

text \<open>
  An item of the Hacker News API, as \<open>resp.json()\<close> returns it: a dict in which every key
  may be absent. The thread and its comments are items alike; the program reads the keys
  \<open>id\<close>, \<open>text\<close>, \<open>time\<close>, \<open>deleted\<close> and \<open>kids\<close>.
\<close>

record item =
  item_id :: "int option"
  item_text :: "string option"
  item_time :: "int option"
  item_deleted :: "bool option"
  item_kids :: "int list option"

text \<open>The dict that \<open>parse_hn_comment\<close> returns.\<close>

record posting =
  p_id :: string
  company :: string
  title :: string
  location :: string
  description :: string
  url :: string
  posted_at :: int

text \<open>\<open>str(comment.get("id"))\<close>: \<open>str(None)\<close> is \<open>"None"\<close> when the key is absent.\<close>

definition str_id :: "int option \<Rightarrow> string" where
  "str_id i = (case i of None \<Rightarrow> ''None'' | Some n \<Rightarrow> str_int n)"

section \<open>\<open>parse_hn_comment\<close>\<close>

text \<open>
  The header fields: \<open>lines[0]\<close> of \<open>text.split("<p>")\<close> with the tags removed and
  stripped, split on \<open>|\<close>, every field stripped (lines 43 to 48).
\<close>

definition first_line :: "string list \<Rightarrow> string" where
  "first_line lines = strip (re_sub_tags '''' (hd lines))"

definition header_parts :: "string list \<Rightarrow> string list" where
  "header_parts lines = map strip (py_split ''|'' (first_line lines))"

text \<open>
  \<open>parse_hn_comment now comment\<close>: \<open>now\<close> is what
  \<open>int(datetime.now(timezone.utc).timestamp())\<close> gives when line 62 is evaluated. The
  result is \<open>None\<close> where the function returns \<open>None\<close>. The slices \<open>[:100]\<close>, \<open>[:200]\<close>
  and \<open>[:500]\<close> are \<open>take\<close>.
\<close>

definition parse_hn_comment :: "int \<Rightarrow> item \<Rightarrow> posting option" where
  "parse_hn_comment now comment =
     (let text = (case item_text comment of None \<Rightarrow> '''' | Some t \<Rightarrow> t) in
      if text = [] then None
      else
        let clean_text = strip (re_sub_tags '' '' text);
            lines = py_split ''<p>'' text
        in
        if lines = [] then None
        else
          let parts = header_parts lines in
          if length parts \<ge> 2 then
            let company_v = (if parts ! 0 \<noteq> [] then parts ! 0 else ''Unknown Company'');
                title_v = (if length parts > 1 \<and> parts ! 1 \<noteq> []
                           then parts ! 1 else ''Software Engineer'');
                location_v = (if length parts > 2 \<and> parts ! 2 \<noteq> []
                              then parts ! 2 else ''Remote'')
            in Some \<lparr>p_id = str_id (item_id comment),
                      company = take 100 company_v,
                      title = take 200 title_v,
                      location = take 100 location_v,
                      description = take 500 clean_text,
                      url = ''https://news.ycombinator.com/item?id='' @ str_id (item_id comment),
                      posted_at = (case item_time comment of None \<Rightarrow> now | Some t \<Rightarrow> t)\<rparr>
          else None)"

section \<open>The handler and its collaborators\<close>

text \<open>
  The trigger payload \<open>input_data\<close>, the event passed to \<open>context.emit\<close>, the status
  record passed to \<open>context.state.set\<close>, and a log line of \<open>context.logger\<close> (level,
  message, the data dict rendered as text). \<open>lastFetch\<close> holds the clock reading whose
  ISO-8601 rendering the program stores.
\<close>

record trigger =
  source :: "string option"
  manual :: "bool option"

record event =
  topic :: string
  ev_source :: string
  rawJob :: posting

record status_record =
  lastFetch :: int
  jobCount :: nat
  status :: string
  error :: "string option"

datatype level = INFO | WARN | ERROR

type_synonym log_entry = "level \<times> string \<times> (string \<times> string) list"

text \<open>
  What the run cannot decide is an environment, indexed by the requests of the run:
  request number \<open>n\<close> is the one issued after \<open>n\<close> earlier requests. \<open>http_get e n i\<close>
  answers request number \<open>n\<close>, made for item \<open>i\<close>: \<open>Inl msg\<close> when \<open>client.get\<close>,
  \<open>raise_for_status\<close> or \<open>json\<close> raises, \<open>Inr None\<close> for the JSON \<open>null\<close>, \<open>Inr (Some it)\<close>
  for an item. A pass of the inner loop issues one request, reads the clock at most once
  (line 62) and calls \<open>context.emit\<close> at most once: \<open>now e n\<close> is the clock reading
  (integer seconds) of the pass that issued request number \<open>n\<close>, and \<open>emit_error e n\<close> is
  the exception raised by its call of \<open>context.emit\<close>, \<open>None\<close> when the call returns. The
  reading taken after the loops for \<open>lastFetch\<close> is \<open>now e n\<close> for \<open>n\<close> the number of
  requests issued by then; no request has that number.
\<close>

record env =
  http_get :: "nat \<Rightarrow> int \<Rightarrow> string + item option"
  now :: "nat \<Rightarrow> int"
  emit_error :: "nat \<Rightarrow> string option"

text \<open>
  The effects of a run: the requests issued, in order; the numbers of clock readings and
  of calls of \<open>context.emit\<close>; the events whose \<open>emit\<close> returned; the state store,
  from (namespace, key) to the record; the log.
\<close>

record world =
  requests :: "int list"
  clock_reads :: nat
  emit_calls :: nat
  emitted :: "event list"
  store :: "string \<times> string \<Rightarrow> status_record option"
  logs :: "log_entry list"

definition WHO_IS_HIRING_THREADS :: "int list" where
  "WHO_IS_HIRING_THREADS = [42575537, 42057092, 41709301]"

definition add_log :: "level \<Rightarrow> string \<Rightarrow> (string \<times> string) list \<Rightarrow> world \<Rightarrow> world" where
  "add_log lv msg data w = w\<lparr>logs := logs w @ [(lv, msg, data)]\<rparr>"

text \<open>Truthiness of \<open>comment.get("text")\<close> and of \<open>comment.get("deleted")\<close>.\<close>

definition truthy_text :: "string option \<Rightarrow> bool" where
  "truthy_text t = (case t of None \<Rightarrow> False | Some s \<Rightarrow> s \<noteq> [])"

definition truthy_flag :: "bool option \<Rightarrow> bool" where
  "truthy_flag d = (case d of None \<Rightarrow> False | Some b \<Rightarrow> b)"

text \<open>
  One pass of the inner loop (lines 100 to 125), on the pair of \<open>jobs_found\<close> and the
  world. An exception of the \<open>try\<close> body (the fetch, or \<open>context.emit\<close>) is logged by the
  \<open>except\<close> clause and the pass ends. The clock is read where line 62 is reached, that
  is when \<open>parse_hn_comment\<close> returns a record.
\<close>

definition process_comment :: "env \<Rightarrow> int \<Rightarrow> nat \<times> world \<Rightarrow> nat \<times> world" where
  "process_comment e comment_id st =
     (let jobs_found = fst st; w = snd st;
          w1 = w\<lparr>requests := requests w @ [comment_id]\<rparr>
      in
      case http_get e (length (requests w)) comment_id of
        Inl err \<Rightarrow>
          (jobs_found,
           add_log WARN (''Failed to fetch comment '' @ str_int comment_id) [(''error'', err)] w1)
      | Inr None \<Rightarrow> (jobs_found, w1)
      | Inr (Some comment) \<Rightarrow>
          if truthy_text (item_text comment) \<and> \<not> truthy_flag (item_deleted comment) then
            (case parse_hn_comment (now e (length (requests w))) comment of
               None \<Rightarrow> (jobs_found, w1)
             | Some job_data \<Rightarrow>
                 let w2 = w1\<lparr>clock_reads := Suc (clock_reads w1),
                              emit_calls := Suc (emit_calls w1)\<rparr>
                 in
                 (case emit_error e (length (requests w)) of
                    Some err \<Rightarrow>
                      (jobs_found,
                       add_log WARN (''Failed to fetch comment '' @ str_int comment_id)
                         [(''error'', err)] w2)
                  | None \<Rightarrow>
                      (jobs_found + 1,
                       w2\<lparr>emitted := emitted w2 @
                            [\<lparr>topic = ''normalize-job'', ev_source = ''hackernews'',
                              rawJob = job_data\<rparr>]\<rparr>)))
          else (jobs_found, w1))"

text \<open>
  One pass of the outer loop (lines 79 to 136): the thread is fetched, and its first 30
  \<open>kids\<close> are processed in order. \<open>not thread or "kids" not in thread\<close> holds for
  \<open>null\<close> and for an item without \<open>kids\<close>.
\<close>

definition process_thread :: "env \<Rightarrow> int \<Rightarrow> nat \<times> world \<Rightarrow> nat \<times> world" where
  "process_thread e thread_id st =
     (let jobs_found = fst st; w = snd st;
          w1 = w\<lparr>requests := requests w @ [thread_id]\<rparr>
      in
      case http_get e (length (requests w)) thread_id of
        Inl err \<Rightarrow>
          (jobs_found,
           add_log ERROR ''Failed to fetch HN thread''
             [(''thread_id'', str_int thread_id), (''error'', err)] w1)
      | Inr thread \<Rightarrow>
          (case (case thread of None \<Rightarrow> None | Some t \<Rightarrow> item_kids t) of
             None \<Rightarrow>
               (jobs_found,
                add_log WARN ''Thread has no comments'' [(''thread_id'', str_int thread_id)] w1)
           | Some kids \<Rightarrow>
               let w2 = add_log INFO ''Processing HackerNews thread''
                          [(''thread_id'', str_int thread_id),
                           (''comment_count'', str_nat (length kids))] w1;
                   comment_ids = take 30 kids;
                   st' = fold (process_comment e) comment_ids (jobs_found, w2)
               in
               (fst st',
                add_log INFO ''Processed HackerNews thread''
                  [(''thread_id'', str_int thread_id), (''jobs_found'', str_nat (fst st'))]
                  (snd st'))))"

text \<open>
  \<open>handler\<close> returns nothing; its result here is the world it leaves. A trigger whose
  \<open>source\<close> is neither \<open>"hackernews"\<close> nor \<open>"all"\<close> returns at line 72.
\<close>

definition handler :: "env \<Rightarrow> trigger \<Rightarrow> world \<Rightarrow> world" where
  "handler e input_data w =
     (let src = (case source input_data of None \<Rightarrow> '''' | Some s \<Rightarrow> s) in
      if src \<noteq> ''hackernews'' \<and> src \<noteq> ''all'' then w
      else
        let w1 = add_log INFO ''Fetching from HackerNews Who's Hiring'' [] w;
            st = fold (process_thread e) (take 1 WHO_IS_HIRING_THREADS) (0, w1);
            jobs_found = fst st; w2 = snd st;
            w3 = w2\<lparr>clock_reads := Suc (clock_reads w2),
                     store := (store w2)((''sources'', ''hackernews'') \<mapsto>
                       \<lparr>lastFetch = now e (length (requests w2)),
                        jobCount = jobs_found,
                        status = (if jobs_found > 0 then ''success'' else ''error''),
                        error = (if jobs_found > 0 then None else Some ''No jobs found'')\<rparr>)\<rparr>
        in add_log INFO ''HackerNews fetch completed'' [(''total_jobs'', str_nat jobs_found)] w3)"

section \<open>Notions used in the statements\<close>

text \<open>
  The comment ids a run processes, given the response to the request for the thread:
  the first 30 \<open>kids\<close> of the thread, none when the request failed or the thread has no
  \<open>kids\<close>.
\<close>

definition thread_comment_ids :: "string + item option \<Rightarrow> int list" where
  "thread_comment_ids resp =
     (case resp of
        Inl err \<Rightarrow> []
      | Inr None \<Rightarrow> []
      | Inr (Some t) \<Rightarrow> (case item_kids t of None \<Rightarrow> [] | Some kids \<Rightarrow> take 30 kids))"

text \<open>
  What becomes of one comment, as a result value: the request failed, the comment was
  skipped (a \<open>null\<close> response, no text, deleted, or rejected by the parser), the call of
  \<open>context.emit\<close> failed, or the posting was emitted. \<open>comment_outcome e n i\<close> is the
  result for the comment \<open>i\<close> requested as request number \<open>n\<close>; it is a function of the
  response to that request, the clock reading of that pass and the outcome of that
  \<open>emit\<close> call, and of nothing that happened to another comment.
\<close>

datatype outcome = FetchFailed string | Skipped | EmitFailed string | Posted posting

definition comment_outcome :: "env \<Rightarrow> nat \<Rightarrow> int \<Rightarrow> outcome" where
  "comment_outcome e n i =
     (case http_get e n i of
        Inl err \<Rightarrow> FetchFailed err
      | Inr None \<Rightarrow> Skipped
      | Inr (Some c) \<Rightarrow>
          if truthy_text (item_text c) \<and> \<not> truthy_flag (item_deleted c) then
            (case parse_hn_comment (now e n) c of
               None \<Rightarrow> Skipped
             | Some job \<Rightarrow>
                 (case emit_error e n of
                    Some err \<Rightarrow> EmitFailed err
                  | None \<Rightarrow> Posted job))
          else Skipped)"

text \<open>
  The results of the comments \<open>cids\<close> requested in order from request number \<open>n\<close> on,
  and the events of the postings among a list of results.
\<close>

fun run_outcomes :: "env \<Rightarrow> nat \<Rightarrow> int list \<Rightarrow> outcome list" where
  "run_outcomes e n [] = []"
| "run_outcomes e n (i # cids) = comment_outcome e n i # run_outcomes e (Suc n) cids"

fun posted_events :: "outcome list \<Rightarrow> event list" where
  "posted_events [] = []"
| "posted_events (Posted job # os) =
     \<lparr>topic = ''normalize-job'', ev_source = ''hackernews'', rawJob = job\<rparr> # posted_events os"
| "posted_events (FetchFailed err # os) = posted_events os"
| "posted_events (EmitFailed err # os) = posted_events os"
| "posted_events (Skipped # os) = posted_events os"

text \<open>\<open>forget_time\<close> erases the \<open>posted_at\<close> of an event.\<close>

definition forget_time :: "event \<Rightarrow> event" where
  "forget_time ev = ev\<lparr>rawJob := (rawJob ev)\<lparr>posted_at := 0\<rparr>\<rparr>"

section \<open>Concrete inputs\<close>

text \<open>The comment of the specification's example, with an id and a timestamp.\<close>

definition acme_comment :: item where
  "acme_comment =
     \<lparr>item_id = Some 1,
      item_text = Some ''<p>Acme Corp | Backend Engineer | Remote | We build things</p>'',
      item_time = Some 1700000000, item_deleted = None, item_kids = None\<rparr>"

text \<open>A comment whose text is a single bar: two fields, both blank.\<close>

definition bar_comment :: item where
  "bar_comment =
     \<lparr>item_id = Some 2, item_text = Some ''|'', item_time = Some 1700000000,
      item_deleted = None, item_kids = None\<rparr>"

text \<open>A comment with three blank fields and a second paragraph.\<close>

definition blank_fields_comment :: item where
  "blank_fields_comment =
     \<lparr>item_id = Some 6, item_text = Some '' | <b></b> | <p>Hiring'',
      item_time = None, item_deleted = None, item_kids = None\<rparr>"

text \<open>A comment whose text has 600 characters and no markup.\<close>

definition long_text_comment :: item where
  "long_text_comment =
     \<lparr>item_id = Some 5, item_text = Some (''A|'' @ replicate 598 (CHR ''x'')),
      item_time = Some 1700000000, item_deleted = None, item_kids = None\<rparr>"

text \<open>A comment in the usual format, with a second paragraph.\<close>

definition plain_comment :: item where
  "plain_comment =
     \<lparr>item_id = Some 8, item_text = Some ''Initech | SRE | Austin, TX<p>We are hiring'',
      item_time = Some 1736000000, item_deleted = Some False, item_kids = None\<rparr>"

text \<open>An empty world, and two triggers.\<close>

definition empty_world :: world where
  "empty_world = \<lparr>requests = [], clock_reads = 0, emit_calls = 0, emitted = [],
     store = (\<lambda>k. None), logs = []\<rparr>"

definition trigger_all :: trigger where
  "trigger_all = \<lparr>source = Some ''all'', manual = None\<rparr>"

definition trigger_github :: trigger where
  "trigger_github = \<lparr>source = Some ''github'', manual = None\<rparr>"

text \<open>
  A thread with three comments: the request for the second one fails, the third has no
  timestamp.
\<close>

definition demo_thread :: item where
  "demo_thread = \<lparr>item_id = Some 42575537, item_text = Some ''Who is hiring?'',
     item_time = Some 1735743600, item_deleted = None, item_kids = Some [101, 102, 103]\<rparr>"

definition demo_comment :: "int \<Rightarrow> string \<Rightarrow> int option \<Rightarrow> item" where
  "demo_comment i t tm = \<lparr>item_id = Some i, item_text = Some t, item_time = tm,
     item_deleted = None, item_kids = None\<rparr>"

definition demo_env :: env where
  "demo_env = \<lparr>http_get = (\<lambda>n i.
        if i = 42575537 then Inr (Some demo_thread)
        else if i = 101 then Inr (Some (demo_comment 101 ''Acme | Engineer'' (Some 1735750000)))
        else if i = 102 then Inl ''timeout''
        else Inr (Some (demo_comment i ''Initech | SRE | Austin<p>Apply'' None))),
      now = (\<lambda>n. 1736000000 + int n),
      emit_error = (\<lambda>n. None)\<rparr>"

text \<open>
  A thread with one comment that has no timestamp, and the environment in which the
  clock always reads \<open>t\<close>.
\<close>

definition lone_comment :: item where
  "lone_comment = \<lparr>item_id = Some 101, item_text = Some ''Acme | Engineer'',
     item_time = None, item_deleted = None, item_kids = None\<rparr>"

definition lone_thread :: item where
  "lone_thread = \<lparr>item_id = Some 42575537, item_text = None,
     item_time = None, item_deleted = None, item_kids = Some [101]\<rparr>"

definition clock_env :: "int \<Rightarrow> env" where
  "clock_env t = \<lparr>http_get = (\<lambda>n i.
        if i = 42575537 then Inr (Some lone_thread) else Inr (Some lone_comment)),
      now = (\<lambda>n. t),
      emit_error = (\<lambda>n. None)\<rparr>"

text \<open>A comment with three fields and a second paragraph.\<close>

definition three_field_comment :: item where
  "three_field_comment =
     \<lparr>item_id = Some 9, item_text = Some ''Globex | Data Engineer | Berlin<p>Join us'',
      item_time = Some 1736000000, item_deleted = None, item_kids = None\<rparr>"

text \<open>
  The thread with three comments in an environment where the call of \<open>context.emit\<close>
  for the first comment raises, the request for the second fails, and the third goes
  through.
\<close>

definition faulty_env :: env where
  "faulty_env = \<lparr>http_get = (\<lambda>n i.
        if i = 42575537 then Inr (Some demo_thread)
        else if i = 101 then Inr (Some lone_comment)
        else if i = 102 then Inl ''timeout''
        else Inr (Some (demo_comment i ''Initech | SRE | Austin<p>Apply'' None))),
      now = (\<lambda>n. 1736000000 + int n),
      emit_error = (\<lambda>n. if n = 1 then Some ''bus down'' else None)\<rparr>"

text \<open>
  The thread with one comment, which carries a \<open>time\<close> here while the thread has none,
  with the clock reading \<open>t\<close>; and the same thread and comment as in \<open>clock_env 1\<close>
  with every call of \<open>context.emit\<close> raising.
\<close>

definition timed_comment :: item where
  "timed_comment = \<lparr>item_id = Some 101, item_text = Some ''Acme | Engineer'',
     item_time = Some 1735750000, item_deleted = None, item_kids = None\<rparr>"

definition timed_env :: "int \<Rightarrow> env" where
  "timed_env t = \<lparr>http_get = (\<lambda>n i.
        if i = 42575537 then Inr (Some lone_thread) else Inr (Some timed_comment)),
      now = (\<lambda>n. t),
      emit_error = (\<lambda>n. None)\<rparr>"

definition mute_env :: env where
  "mute_env = \<lparr>http_get = (\<lambda>n i.
        if i = 42575537 then Inr (Some lone_thread) else Inr (Some lone_comment)),
      now = (\<lambda>n. 1),
      emit_error = (\<lambda>n. Some ''bus down'')\<rparr>"

section \<open>Properties of the string primitives and of the parser\<close>

lemma py_split_not_Nil: "py_split (p # ps) s \<noteq> []"
  by (induction s) (auto split: option.splits list.splits)

lemma py_split_char_length: "length (py_split [c] s) = Suc (length (filter (\<lambda>x. x = c) s))"
  by (induction s) (auto split: list.splits option.splits)

lemma set_strip: "\<not> is_space c \<Longrightarrow> c \<in> set (strip s) \<longleftrightarrow> c \<in> set s"
proof -
  assume n: "\<not> is_space c"
  have a: "\<And>xs. c \<in> set (dropWhile is_space xs) \<longleftrightarrow> c \<in> set xs"
  proof -
    fix xs
    have "set xs = set (takeWhile is_space xs) \<union> set (dropWhile is_space xs)"
      by (metis set_append takeWhile_dropWhile_id)
    moreover have "c \<notin> set (takeWhile is_space xs)"
      using n by (auto dest: set_takeWhileD)
    ultimately show "c \<in> set (dropWhile is_space xs) \<longleftrightarrow> c \<in> set xs" by auto
  qed
  show ?thesis unfolding strip_def by (simp add: a)
qed

lemma bar_not_space: "\<not> is_space (CHR ''|'')"
  by (simp add: is_space_def)

text \<open>
  \<open>parse_hn_comment\<close> returns a record exactly for a non-empty text whose header has
  at least two fields, and the record is then the one of lines 55 to 63.
\<close>

lemma parse_Some_iff:
  "parse_hn_comment n c = Some r \<longleftrightarrow>
     (\<exists>t. item_text c = Some t \<and> t \<noteq> [] \<and>
        2 \<le> length (header_parts (py_split ''<p>'' t)) \<and>
        r = \<lparr>p_id = str_id (item_id c),
             company = take 100 (if header_parts (py_split ''<p>'' t) ! 0 \<noteq> []
                                 then header_parts (py_split ''<p>'' t) ! 0 else ''Unknown Company''),
             title = take 200 (if header_parts (py_split ''<p>'' t) ! 1 \<noteq> []
                               then header_parts (py_split ''<p>'' t) ! 1 else ''Software Engineer''),
             location = take 100 (if 2 < length (header_parts (py_split ''<p>'' t)) \<and>
                                    header_parts (py_split ''<p>'' t) ! 2 \<noteq> []
                                  then header_parts (py_split ''<p>'' t) ! 2 else ''Remote''),
             description = take 500 (strip (re_sub_tags '' '' t)),
             url = ''https://news.ycombinator.com/item?id='' @ str_id (item_id c),
             posted_at = (case item_time c of None \<Rightarrow> n | Some t \<Rightarrow> t)\<rparr>)"
  by (cases "item_text c") (auto simp: parse_hn_comment_def Let_def py_split_not_Nil)

lemma parse_None_iff:
  "parse_hn_comment n c = None \<longleftrightarrow>
     (case item_text c of None \<Rightarrow> True
      | Some t \<Rightarrow> t = [] \<or> length (header_parts (py_split ''<p>'' t)) < 2)"
  by (cases "item_text c") (auto simp: parse_hn_comment_def Let_def py_split_not_Nil)


text \<open>
  The first element of a split is the text before the first occurrence of the
  separator: either the text has no separator and is the only element, or the text is
  that element, the separator and a rest.
\<close>

lemma strip_prefix_Some_iff: "strip_prefix sep s = Some rest \<longleftrightarrow> s = sep @ rest"
  by (induction sep s rule: strip_prefix.induct) auto

lemma py_split_hd:
  "py_split (p # ps) s = [s] \<or> (\<exists>rest. s = hd (py_split (p # ps) s) @ (p # ps) @ rest)"
proof (induction s)
  case Nil
  show ?case by simp
next
  case (Cons c cs)
  show ?case
  proof (cases "strip_prefix (p # ps) (c # cs)")
    case (Some rest)
    then have "c # cs = (p # ps) @ rest" by (simp only: strip_prefix_Some_iff)
    with Some show ?thesis by auto
  next
    case None
    from Cons.IH show ?thesis
    proof
      assume "py_split (p # ps) cs = [cs]"
      with None show ?thesis by simp
    next
      assume "\<exists>rest. cs = hd (py_split (p # ps) cs) @ (p # ps) @ rest"
      then obtain rest where r: "cs = hd (py_split (p # ps) cs) @ (p # ps) @ rest" ..
      obtain f fs where f: "py_split (p # ps) cs = f # fs"
        using py_split_not_Nil [of p ps cs] by (cases "py_split (p # ps) cs") auto
      from r f have "c # cs = (c # f) @ (p # ps) @ rest" by simp
      moreover from None f have "hd (py_split (p # ps) (c # cs)) = c # f" by simp
      ultimately show ?thesis by metis
    qed
  qed
qed

text \<open>Text without markup, separators or outer whitespace is left as it is.\<close>

lemma re_sub_tags_no_tag: "CHR ''<'' \<notin> set s \<Longrightarrow> re_sub_tags repl s = s"
  by (induction s) auto

lemma py_split_no_sep: "p \<notin> set s \<Longrightarrow> py_split (p # ps) s = [s]"
  by (induction s) auto

lemma strip_no_space: "s \<noteq> [] \<Longrightarrow> \<not> is_space (hd s) \<Longrightarrow> \<not> is_space (last s) \<Longrightarrow> strip s = s"
proof -
  assume s: "s \<noteq> []" and h: "\<not> is_space (hd s)" and l: "\<not> is_space (last s)"
  from s h have a: "dropWhile is_space s = s" by (cases s) auto
  from s l have "dropWhile is_space (rev s) = rev s"
    by (cases "rev s") (auto simp: last_rev [symmetric] simp del: last_rev)
  with a show ?thesis by (simp add: strip_def)
qed

lemma parse_accepts:
  assumes "item_text c = Some t" and "t \<noteq> []"
    and "header_parts (py_split ''<p>'' t) = parts" and "2 \<le> length parts"
  shows "parse_hn_comment n c =
     Some \<lparr>p_id = str_id (item_id c),
            company = take 100 (if parts ! 0 \<noteq> [] then parts ! 0 else ''Unknown Company''),
            title = take 200 (if parts ! 1 \<noteq> [] then parts ! 1 else ''Software Engineer''),
            location = take 100 (if 2 < length parts \<and> parts ! 2 \<noteq> []
                                 then parts ! 2 else ''Remote''),
            description = take 500 (strip (re_sub_tags '' '' t)),
            url = ''https://news.ycombinator.com/item?id='' @ str_id (item_id c),
            posted_at = (case item_time c of None \<Rightarrow> n | Some t \<Rightarrow> t)\<rparr>"
  unfolding parse_Some_iff using assms by (simp del: py_split.simps)

text \<open>The header has fewer than two fields exactly when it holds no bar.\<close>

lemma length_parts_bar:
  "length (header_parts lines) < 2 \<longleftrightarrow> CHR ''|'' \<notin> set (re_sub_tags [] (hd lines))"
proof -
  have "length (header_parts lines) = Suc (length (filter (\<lambda>x. x = CHR ''|'') (first_line lines)))"
    by (simp add: header_parts_def py_split_char_length)
  moreover have "CHR ''|'' \<in> set (first_line lines) \<longleftrightarrow> CHR ''|'' \<in> set (re_sub_tags [] (hd lines))"
    unfolding first_line_def by (rule set_strip [OF bar_not_space])
  moreover have "length (filter (\<lambda>x. x = CHR ''|'') (first_line lines)) = 0
      \<longleftrightarrow> CHR ''|'' \<notin> set (first_line lines)"
    by (auto simp: filter_empty_conv)
  ultimately show ?thesis by auto
qed

section \<open>C1: the example of the specification\<close>

lemma ex1_lines:
  "py_split ''<p>'' ''<p>Acme Corp | Backend Engineer | Remote | We build things</p>''
   = [[], ''Acme Corp | Backend Engineer | Remote | We build things</p>'']"
  by code_simp

lemma ex1_parts:
  "header_parts [[], ''Acme Corp | Backend Engineer | Remote | We build things</p>''] = [[]]"
  by code_simp

lemma ex2_lines:
  "py_split ''<p>'' ''Acme Corp | Backend Engineer | Remote | We build things</p>''
   = [''Acme Corp | Backend Engineer | Remote | We build things</p>'']"
  by code_simp

lemma ex2_parts:
  "header_parts [''Acme Corp | Backend Engineer | Remote | We build things</p>'']
   = [''Acme Corp'', ''Backend Engineer'', ''Remote'', ''We build things'']"
  by code_simp

lemma ex2_clean:
  "strip (re_sub_tags '' '' ''Acme Corp | Backend Engineer | Remote | We build things</p>'')
   = ''Acme Corp | Backend Engineer | Remote | We build things''"
  by code_simp

text \<open>
  C1, as amended. The text \<open><p>Acme Corp | Backend Engineer | Remote | We build things</p>\<close>
  starts with the paragraph marker, so the header, which is the part of the text before
  the first \<open><p>\<close>, is empty and \<open>parse_hn_comment\<close> returns \<open>None\<close> whatever the other
  keys of the comment are. For the same text without the leading \<open><p>\<close> it returns the
  record with company \<open>Acme Corp\<close>, title \<open>Backend Engineer\<close>, location \<open>Remote\<close> and
  description \<open>Acme Corp | Backend Engineer | Remote | We build things\<close>.
\<close>

theorem C1_parse_example_amended:
  "parse_hn_comment n
     (c\<lparr>item_text := Some ''<p>Acme Corp | Backend Engineer | Remote | We build things</p>''\<rparr>)
   = None \<and>
   parse_hn_comment n
     (c\<lparr>item_text := Some ''Acme Corp | Backend Engineer | Remote | We build things</p>''\<rparr>)
   = Some \<lparr>p_id = str_id (item_id c),
            company = ''Acme Corp'',
            title = ''Backend Engineer'',
            location = ''Remote'',
            description = ''Acme Corp | Backend Engineer | Remote | We build things'',
            url = ''https://news.ycombinator.com/item?id='' @ str_id (item_id c),
            posted_at = (case item_time c of None \<Rightarrow> n | Some t \<Rightarrow> t)\<rparr>"
proof
  show "parse_hn_comment n
     (c\<lparr>item_text := Some ''<p>Acme Corp | Backend Engineer | Remote | We build things</p>''\<rparr>)
   = None"
    by (simp add: parse_None_iff ex1_lines ex1_parts del: py_split.simps)
next
  show "parse_hn_comment n
     (c\<lparr>item_text := Some ''Acme Corp | Backend Engineer | Remote | We build things</p>''\<rparr>)
   = Some \<lparr>p_id = str_id (item_id c),
            company = ''Acme Corp'',
            title = ''Backend Engineer'',
            location = ''Remote'',
            description = ''Acme Corp | Backend Engineer | Remote | We build things'',
            url = ''https://news.ycombinator.com/item?id='' @ str_id (item_id c),
            posted_at = (case item_time c of None \<Rightarrow> n | Some t \<Rightarrow> t)\<rparr>"
    by (simp add: parse_Some_iff ex2_lines ex2_parts ex2_clean del: py_split.simps re_sub_tags.simps)
qed

text \<open>
  C1 as stated fails: on the comment of the example \<open>parse_hn_comment\<close> returns \<open>None\<close>,
  not the record the claim describes.
\<close>

theorem C1_parse_example_counterexample:
  "parse_hn_comment 0 acme_comment = None \<and>
   parse_hn_comment 0 acme_comment \<noteq>
     Some \<lparr>p_id = ''1'', company = ''Acme Corp'', title = ''Backend Engineer'',
            location = ''Remote'',
            description = ''Acme Corp | Backend Engineer | Remote | We build things'',
            url = ''https://news.ycombinator.com/item?id=1'', posted_at = 1700000000\<rparr>"
proof -
  have "parse_hn_comment 0 acme_comment = None"
    by (simp add: parse_None_iff acme_comment_def ex1_lines ex1_parts del: py_split.simps)
  then show ?thesis by simp
qed

text \<open>The amended C1 at the comment with id 7 and no timestamp, parsed at time 5.\<close>

theorem C1_parse_example_amended_witness:
  "parse_hn_comment 5
     \<lparr>item_id = Some 7,
      item_text = Some ''<p>Acme Corp | Backend Engineer | Remote | We build things</p>'',
      item_time = None, item_deleted = None, item_kids = None\<rparr> = None \<and>
   parse_hn_comment 5
     \<lparr>item_id = Some 7,
      item_text = Some ''Acme Corp | Backend Engineer | Remote | We build things</p>'',
      item_time = None, item_deleted = None, item_kids = None\<rparr>
   = Some \<lparr>p_id = ''7'', company = ''Acme Corp'', title = ''Backend Engineer'',
            location = ''Remote'',
            description = ''Acme Corp | Backend Engineer | Remote | We build things'',
            url = ''https://news.ycombinator.com/item?id=7'', posted_at = 5\<rparr>"
proof -
  have s: "str_id (Some 7) = ''7''" by code_simp
  show ?thesis
    using C1_parse_example_amended [of 5 "\<lparr>item_id = Some 7, item_text = None,
      item_time = None, item_deleted = None, item_kids = None\<rparr>"]
    by (simp add: s)
qed


section \<open>C2: when the parser returns nothing\<close>

text \<open>
  C2, as amended. \<open>parse_hn_comment\<close> returns \<open>None\<close> if and only if the text is absent
  or empty, or the header (the part of the text before the first \<open><p>\<close>, with the tags
  removed) gives fewer than two fields when split on the bar: blank fields count, so
  this is the case exactly when the header holds no bar. Whenever it returns \<open>None\<close> on
  a non-empty text, the header has fewer than two non-empty fields as well; the converse
  fails.
\<close>

theorem C2_none_iff_amended:
  "(parse_hn_comment n c = None \<longleftrightarrow>
      (case item_text c of None \<Rightarrow> True
       | Some t \<Rightarrow> t = [] \<or> length (header_parts (py_split ''<p>'' t)) < 2))
   \<and> (parse_hn_comment n c = None \<longleftrightarrow>
      (case item_text c of None \<Rightarrow> True
       | Some t \<Rightarrow> t = [] \<or> CHR ''|'' \<notin> set (re_sub_tags [] (hd (py_split ''<p>'' t)))))
   \<and> (parse_hn_comment n c = None \<longrightarrow>
      (case item_text c of None \<Rightarrow> True
       | Some t \<Rightarrow> t = [] \<or>
           length (filter (\<lambda>f. f \<noteq> []) (header_parts (py_split ''<p>'' t))) < 2))"
proof -
  have a: "parse_hn_comment n c = None \<longleftrightarrow>
      (case item_text c of None \<Rightarrow> True
       | Some t \<Rightarrow> t = [] \<or> length (header_parts (py_split ''<p>'' t)) < 2)"
    by (rule parse_None_iff)
  have b: "parse_hn_comment n c = None \<longleftrightarrow>
      (case item_text c of None \<Rightarrow> True
       | Some t \<Rightarrow> t = [] \<or> CHR ''|'' \<notin> set (re_sub_tags [] (hd (py_split ''<p>'' t))))"
    unfolding a by (simp add: length_parts_bar split: option.splits)
  have le: "\<And>xs :: string list. length (filter (\<lambda>f. f \<noteq> []) xs) \<le> length xs"
    by (rule length_filter_le)
  have d: "parse_hn_comment n c = None \<longrightarrow>
      (case item_text c of None \<Rightarrow> True
       | Some t \<Rightarrow> t = [] \<or>
           length (filter (\<lambda>f. f \<noteq> []) (header_parts (py_split ''<p>'' t))) < 2)"
  proof (cases "item_text c")
    case None
    then show ?thesis by simp
  next
    case (Some t)
    show ?thesis
    proof
      assume "parse_hn_comment n c = None"
      with a Some have "t = [] \<or> length (header_parts (py_split ''<p>'' t)) < 2"
        by simp
      moreover have "length (filter (\<lambda>f. f \<noteq> []) (header_parts (py_split ''<p>'' t)))
          \<le> length (header_parts (py_split ''<p>'' t))"
        by (rule le)
      ultimately have "t = [] \<or>
          length (filter (\<lambda>f. f \<noteq> []) (header_parts (py_split ''<p>'' t))) < 2"
        by linarith
      with Some show "case item_text c of None \<Rightarrow> True
          | Some t \<Rightarrow> t = [] \<or>
              length (filter (\<lambda>f. f \<noteq> []) (header_parts (py_split ''<p>'' t))) < 2"
        by simp
    qed
  qed
  from a b d show ?thesis by blast
qed

text \<open>
  C2 as stated fails: the header of the text \<open>|\<close> has no non-empty field, and
  \<open>parse_hn_comment\<close> returns a record, with the defaults for company, title and location.
\<close>

theorem C2_none_iff_counterexample:
  "item_text bar_comment = Some ''|'' \<and>
   length (filter (\<lambda>f. f \<noteq> []) (header_parts (py_split ''<p>'' ''|''))) = 0 \<and>
   parse_hn_comment 0 bar_comment =
     Some \<lparr>p_id = ''2'', company = ''Unknown Company'', title = ''Software Engineer'',
            location = ''Remote'', description = ''|'',
            url = ''https://news.ycombinator.com/item?id=2'', posted_at = 1700000000\<rparr>"
  by code_simp

text \<open>The amended C2 at the text \<open>Just a note\<close>, which has one field.\<close>

theorem C2_none_iff_amended_witness:
  "parse_hn_comment 0 \<lparr>item_id = Some 3, item_text = Some ''Just a note'',
      item_time = None, item_deleted = None, item_kids = None\<rparr> = None \<and>
   length (header_parts (py_split ''<p>'' ''Just a note'')) = 1 \<and>
   CHR ''|'' \<notin> set (re_sub_tags [] (hd (py_split ''<p>'' ''Just a note'')))"
proof -
  have l1: "length (header_parts (py_split ''<p>'' ''Just a note'')) = 1" by code_simp
  have "parse_hn_comment 0 \<lparr>item_id = Some 3, item_text = Some ''Just a note'',
      item_time = None, item_deleted = None, item_kids = None\<rparr> = None"
    using C2_none_iff_amended [of 0 "\<lparr>item_id = Some 3, item_text = Some ''Just a note'',
      item_time = None, item_deleted = None, item_kids = None\<rparr>"] l1
    by (simp del: py_split.simps re_sub_tags.simps)
  moreover have "CHR ''|'' \<notin> set (re_sub_tags [] (hd (py_split ''<p>'' ''Just a note'')))"
    by code_simp
  ultimately show ?thesis using l1 by blast
qed

section \<open>C3: the fields of the header\<close>

text \<open>
  C3. For every comment accepted by \<open>parse_hn_comment\<close> the header has at least two
  trimmed fields, and they map to the record by position: field 0 becomes company,
  \<open>Unknown Company\<close> when it is blank; field 1 becomes title, \<open>Software Engineer\<close> when
  it is blank; field 2 becomes location, \<open>Remote\<close> when it is absent or blank. The record
  holds each of these values cut to its maximum length (the slices of C4), so it holds the
  field itself whenever the field is within 100, 200 and 100 characters.
\<close>

theorem C3_fields_by_position:
  "parse_hn_comment n c = Some r \<Longrightarrow>
   \<exists>t. item_text c = Some t \<and>
     (let parts = header_parts (py_split ''<p>'' t) in
      2 \<le> length parts \<and>
      company r = take 100 (if parts ! 0 = [] then ''Unknown Company'' else parts ! 0) \<and>
      title r = take 200 (if parts ! 1 = [] then ''Software Engineer'' else parts ! 1) \<and>
      location r = take 100 (if length parts \<le> 2 \<or> parts ! 2 = [] then ''Remote''
                             else parts ! 2) \<and>
      (parts ! 0 \<noteq> [] \<and> length (parts ! 0) \<le> 100 \<longrightarrow> company r = parts ! 0) \<and>
      (parts ! 0 = [] \<longrightarrow> company r = ''Unknown Company'') \<and>
      (parts ! 1 \<noteq> [] \<and> length (parts ! 1) \<le> 200 \<longrightarrow> title r = parts ! 1) \<and>
      (parts ! 1 = [] \<longrightarrow> title r = ''Software Engineer'') \<and>
      (2 < length parts \<and> parts ! 2 \<noteq> [] \<and> length (parts ! 2) \<le> 100 \<longrightarrow>
         location r = parts ! 2) \<and>
      (length parts \<le> 2 \<or> parts ! 2 = [] \<longrightarrow> location r = ''Remote''))"
proof -
  assume "parse_hn_comment n c = Some r"
  then obtain t where t: "item_text c = Some t"
    and l: "2 \<le> length (header_parts (py_split ''<p>'' t))"
    and r: "r = \<lparr>p_id = str_id (item_id c),
             company = take 100 (if header_parts (py_split ''<p>'' t) ! 0 \<noteq> []
                                 then header_parts (py_split ''<p>'' t) ! 0 else ''Unknown Company''),
             title = take 200 (if header_parts (py_split ''<p>'' t) ! 1 \<noteq> []
                               then header_parts (py_split ''<p>'' t) ! 1 else ''Software Engineer''),
             location = take 100 (if 2 < length (header_parts (py_split ''<p>'' t)) \<and>
                                    header_parts (py_split ''<p>'' t) ! 2 \<noteq> []
                                  then header_parts (py_split ''<p>'' t) ! 2 else ''Remote''),
             description = take 500 (strip (re_sub_tags '' '' t)),
             url = ''https://news.ycombinator.com/item?id='' @ str_id (item_id c),
             posted_at = (case item_time c of None \<Rightarrow> n | Some t \<Rightarrow> t)\<rparr>"
    unfolding parse_Some_iff by blast
  define parts where "parts = header_parts (py_split ''<p>'' t)"
  have co: "company r = take 100 (if parts ! 0 = [] then ''Unknown Company'' else parts ! 0)"
    unfolding r parts_def by (simp del: py_split.simps)
  have ti: "title r = take 200 (if parts ! 1 = [] then ''Software Engineer'' else parts ! 1)"
    unfolding r parts_def by (simp del: py_split.simps)
  have lo: "location r = take 100 (if length parts \<le> 2 \<or> parts ! 2 = [] then ''Remote''
                             else parts ! 2)"
    unfolding r parts_def by (auto simp del: py_split.simps)
  have "2 \<le> length parts \<and>
      company r = take 100 (if parts ! 0 = [] then ''Unknown Company'' else parts ! 0) \<and>
      title r = take 200 (if parts ! 1 = [] then ''Software Engineer'' else parts ! 1) \<and>
      location r = take 100 (if length parts \<le> 2 \<or> parts ! 2 = [] then ''Remote''
                             else parts ! 2) \<and>
      (parts ! 0 \<noteq> [] \<and> length (parts ! 0) \<le> 100 \<longrightarrow> company r = parts ! 0) \<and>
      (parts ! 0 = [] \<longrightarrow> company r = ''Unknown Company'') \<and>
      (parts ! 1 \<noteq> [] \<and> length (parts ! 1) \<le> 200 \<longrightarrow> title r = parts ! 1) \<and>
      (parts ! 1 = [] \<longrightarrow> title r = ''Software Engineer'') \<and>
      (2 < length parts \<and> parts ! 2 \<noteq> [] \<and> length (parts ! 2) \<le> 100 \<longrightarrow>
         location r = parts ! 2) \<and>
      (length parts \<le> 2 \<or> parts ! 2 = [] \<longrightarrow> location r = ''Remote'')"
    using l co ti lo by (auto simp add: parts_def [symmetric])
  with t show ?thesis
    unfolding Let_def parts_def by blast
qed

text \<open>
  C3 at a comment with three fields, which become company, title and location, and at a
  comment whose three fields are blank, which gets the three defaults.
\<close>

theorem C3_fields_by_position_witness:
  "parse_hn_comment 0 three_field_comment =
     Some \<lparr>p_id = ''9'', company = ''Globex'', title = ''Data Engineer'', location = ''Berlin'',
            description = ''Globex | Data Engineer | Berlin Join us'',
            url = ''https://news.ycombinator.com/item?id=9'', posted_at = 1736000000\<rparr> \<and>
   header_parts (py_split ''<p>'' ''Globex | Data Engineer | Berlin<p>Join us'')
     = [''Globex'', ''Data Engineer'', ''Berlin''] \<and>
   parse_hn_comment 9 blank_fields_comment =
     Some \<lparr>p_id = ''6'', company = ''Unknown Company'', title = ''Software Engineer'',
            location = ''Remote'', description = ''|    |  Hiring'',
            url = ''https://news.ycombinator.com/item?id=6'', posted_at = 9\<rparr> \<and>
   header_parts (py_split ''<p>'' '' | <b></b> | <p>Hiring'') = ['''', '''', '''']"
proof -
  have q: "parse_hn_comment 0 three_field_comment =
     Some \<lparr>p_id = ''9'', company = ''Globex'', title = ''Data Engineer'', location = ''Berlin'',
            description = ''Globex | Data Engineer | Berlin Join us'',
            url = ''https://news.ycombinator.com/item?id=9'', posted_at = 1736000000\<rparr>"
    by code_simp
  have g: "header_parts (py_split ''<p>'' ''Globex | Data Engineer | Berlin<p>Join us'')
     = [''Globex'', ''Data Engineer'', ''Berlin'']"
    by code_simp
  have p: "parse_hn_comment 9 blank_fields_comment =
     Some \<lparr>p_id = ''6'', company = ''Unknown Company'', title = ''Software Engineer'',
            location = ''Remote'', description = ''|    |  Hiring'',
            url = ''https://news.ycombinator.com/item?id=6'', posted_at = 9\<rparr>"
    by code_simp
  have h: "header_parts (py_split ''<p>'' '' | <b></b> | <p>Hiring'') = ['''', '''', '''']"
    by code_simp
  from C3_fields_by_position [OF q] C3_fields_by_position [OF p] q g p h show ?thesis by blast
qed


section \<open>C4: truncation\<close>

text \<open>
  C4. Every record returned by \<open>parse_hn_comment\<close> has a company of at most 100
  characters, a title of at most 200, a location of at most 100 and a description of at
  most 500; the description is the first 500 characters of the text with every tag
  replaced by a space and stripped, so a comment whose stripped text has 600 characters
  gets a description of exactly 500. The function returns the record: nothing is raised.
\<close>

theorem C4_truncation:
  "parse_hn_comment n c = Some r \<Longrightarrow>
   length (company r) \<le> 100 \<and> length (title r) \<le> 200 \<and>
   length (location r) \<le> 100 \<and> length (description r) \<le> 500 \<and>
   (\<exists>t. item_text c = Some t \<and>
      description r = take 500 (strip (re_sub_tags '' '' t)) \<and>
      (length (strip (re_sub_tags '' '' t)) = 600 \<longrightarrow> length (description r) = 500))"
  unfolding parse_Some_iff by (auto simp del: py_split.simps)

lemma long_text_parts:
  "header_parts (py_split ''<p>'' (''A|'' @ replicate 598 (CHR ''x'')))
   = [''A'', replicate 598 (CHR ''x'')]"
proof -
  have sp: "\<not> is_space (CHR ''A'')" "\<not> is_space (CHR ''x'')"
    by (simp_all add: is_space_def)
  have l: "py_split ''<p>'' (''A|'' @ replicate 598 (CHR ''x'')) = [''A|'' @ replicate 598 (CHR ''x'')]"
    by (rule py_split_no_sep) simp
  have f: "first_line [''A|'' @ replicate 598 (CHR ''x'')] = ''A|'' @ replicate 598 (CHR ''x'')"
    unfolding first_line_def by (simp add: re_sub_tags_no_tag strip_no_space sp)
  have c: "py_split ''|'' (replicate 598 (CHR ''x'')) = [replicate 598 (CHR ''x'')]"
    by (rule py_split_no_sep) simp
  have d: "py_split ''|'' (''A|'' @ replicate 598 (CHR ''x'')) = [''A'', replicate 598 (CHR ''x'')]"
    using c by simp
  have e: "strip (replicate 598 (CHR ''x'')) = replicate 598 (CHR ''x'')"
    by (rule strip_no_space) (simp_all add: sp)
  have g: "strip ''A'' = ''A''"
    by (rule strip_no_space) (simp_all add: sp)
  show ?thesis unfolding l header_parts_def f d using e g by simp
qed

lemma long_text_clean:
  "strip (re_sub_tags '' '' (''A|'' @ replicate 598 (CHR ''x''))) = ''A|'' @ replicate 598 (CHR ''x'')"
proof -
  have sp: "\<not> is_space (CHR ''A'')" "\<not> is_space (CHR ''x'')"
    by (simp_all add: is_space_def)
  have "re_sub_tags '' '' (''A|'' @ replicate 598 (CHR ''x'')) = ''A|'' @ replicate 598 (CHR ''x'')"
    by (rule re_sub_tags_no_tag) simp
  moreover have "strip (''A|'' @ replicate 598 (CHR ''x'')) = ''A|'' @ replicate 598 (CHR ''x'')"
    by (rule strip_no_space) (simp_all add: sp)
  ultimately show ?thesis by simp
qed

lemma long_text_parse:
  "parse_hn_comment 0 long_text_comment =
     Some \<lparr>p_id = ''5'', company = ''A'', title = replicate 200 (CHR ''x''),
            location = ''Remote'', description = ''A|'' @ replicate 498 (CHR ''x''),
            url = ''https://news.ycombinator.com/item?id=5'', posted_at = 1700000000\<rparr>"
proof -
  have t: "item_text long_text_comment = Some (''A|'' @ replicate 598 (CHR ''x''))"
    by (simp add: long_text_comment_def)
  have i: "str_id (item_id long_text_comment) = ''5''"
    unfolding long_text_comment_def by code_simp
  have ne: "replicate 598 (CHR ''x'') \<noteq> []" by simp
  have d: "take 500 (''A|'' @ replicate 598 (CHR ''x'')) = ''A|'' @ replicate 498 (CHR ''x'')"
    by simp
  have p: "parse_hn_comment 0 long_text_comment =
     Some \<lparr>p_id = str_id (item_id long_text_comment),
            company = take 100 (if [''A'', replicate 598 (CHR ''x'')] ! 0 \<noteq> []
                                then [''A'', replicate 598 (CHR ''x'')] ! 0 else ''Unknown Company''),
            title = take 200 (if [''A'', replicate 598 (CHR ''x'')] ! 1 \<noteq> []
                              then [''A'', replicate 598 (CHR ''x'')] ! 1 else ''Software Engineer''),
            location = take 100 (if 2 < length [''A'', replicate 598 (CHR ''x'')] \<and>
                                    [''A'', replicate 598 (CHR ''x'')] ! 2 \<noteq> []
                                 then [''A'', replicate 598 (CHR ''x'')] ! 2 else ''Remote''),
            description = take 500 (strip (re_sub_tags '' '' (''A|'' @ replicate 598 (CHR ''x'')))),
            url = ''https://news.ycombinator.com/item?id='' @ str_id (item_id long_text_comment),
            posted_at = (case item_time long_text_comment of None \<Rightarrow> 0 | Some t \<Rightarrow> t)\<rparr>"
    by (rule parse_accepts [OF t _ long_text_parts]) simp_all
  have tm: "item_time long_text_comment = Some 1700000000"
    by (simp add: long_text_comment_def)
  show ?thesis unfolding p long_text_clean d i tm using ne by simp
qed


text \<open>C4 at a comment whose text has 600 characters.\<close>

theorem C4_truncation_witness:
  "parse_hn_comment 0 long_text_comment =
     Some \<lparr>p_id = ''5'', company = ''A'', title = replicate 200 (CHR ''x''),
            location = ''Remote'', description = ''A|'' @ replicate 498 (CHR ''x''),
            url = ''https://news.ycombinator.com/item?id=5'', posted_at = 1700000000\<rparr> \<and>
   length (strip (re_sub_tags '' '' (''A|'' @ replicate 598 (CHR ''x'')))) = 600 \<and>
   length (''A|'' @ replicate 498 (CHR ''x'')) = 500"
proof -
  have l: "length (strip (re_sub_tags '' '' (''A|'' @ replicate 598 (CHR ''x'')))) = 600"
    unfolding long_text_clean by simp
  from C4_truncation [OF long_text_parse] show ?thesis using long_text_parse l by simp
qed

section \<open>C10: non-empty fields and the URL\<close>

text \<open>
  C10. Every record returned by \<open>parse_hn_comment\<close> has a non-empty company, title and
  location, and its url is \<open>https://news.ycombinator.com/item?id=\<close> followed by its id
  field, which is \<open>str\<close> of the id of the comment.
\<close>

theorem C10_nonempty_fields_and_url:
  "parse_hn_comment n c = Some r \<Longrightarrow>
   company r \<noteq> [] \<and> title r \<noteq> [] \<and> location r \<noteq> [] \<and>
   url r = ''https://news.ycombinator.com/item?id='' @ p_id r \<and>
   p_id r = str_id (item_id c)"
  unfolding parse_Some_iff by (auto simp del: py_split.simps split: if_splits)

text \<open>C10 at a comment in the usual format.\<close>

theorem C10_nonempty_fields_and_url_witness:
  "parse_hn_comment 0 plain_comment =
     Some \<lparr>p_id = ''8'', company = ''Initech'', title = ''SRE'',
            location = ''Austin, TX'', description = ''Initech | SRE | Austin, TX We are hiring'',
            url = ''https://news.ycombinator.com/item?id=8'', posted_at = 1736000000\<rparr> \<and>
   ''https://news.ycombinator.com/item?id=8'' = ''https://news.ycombinator.com/item?id='' @ ''8''"
proof -
  have p: "parse_hn_comment 0 plain_comment =
     Some \<lparr>p_id = ''8'', company = ''Initech'', title = ''SRE'',
            location = ''Austin, TX'', description = ''Initech | SRE | Austin, TX We are hiring'',
            url = ''https://news.ycombinator.com/item?id=8'', posted_at = 1736000000\<rparr>"
    by code_simp
  from C10_nonempty_fields_and_url [OF p] p show ?thesis by simp
qed


section \<open>Properties of the loops\<close>

text \<open>What one pass of the inner loop does to the world, whatever the response is.\<close>

lemma process_comment_requests:
  "requests (snd (process_comment e cid st)) = requests (snd st) @ [cid]"
  by (simp add: process_comment_def add_log_def Let_def split: sum.splits option.splits)

lemma process_comment_store:
  "store (snd (process_comment e cid st)) = store (snd st)"
  by (simp add: process_comment_def add_log_def Let_def split: sum.splits option.splits)

lemma process_comment_count:
  "fst (process_comment e cid st) + length (emitted (snd st))
   = fst st + length (emitted (snd (process_comment e cid st)))"
  by (simp add: process_comment_def add_log_def Let_def split: sum.splits option.splits)

lemma process_comment_emitted_grows:
  "length (emitted (snd st)) \<le> length (emitted (snd (process_comment e cid st))) \<and>
   length (emitted (snd (process_comment e cid st))) \<le> Suc (length (emitted (snd st)))"
  by (simp add: process_comment_def add_log_def Let_def split: sum.splits option.splits)

lemma process_comment_emit_calls:
  "emit_calls (snd st) \<le> emit_calls (snd (process_comment e cid st)) \<and>
   emit_calls (snd (process_comment e cid st)) \<le> Suc (emit_calls (snd st))"
  by (simp add: process_comment_def add_log_def Let_def split: sum.splits option.splits)

lemma process_comment_logs:
  "set (logs (snd st)) \<subseteq> set (logs (snd (process_comment e cid st)))"
  by (auto simp add: process_comment_def add_log_def Let_def split: sum.splits option.splits)

text \<open>The same for the whole inner loop, by induction on the list of comment ids.\<close>

lemma fold_comments_requests:
  "requests (snd (fold (process_comment e) cids st)) = requests (snd st) @ cids"
  by (induction cids arbitrary: st) (simp_all add: process_comment_requests)

lemma fold_comments_store:
  "store (snd (fold (process_comment e) cids st)) = store (snd st)"
  by (induction cids arbitrary: st) (simp_all add: process_comment_store)

lemma fold_comments_count:
  "fst (fold (process_comment e) cids st) + length (emitted (snd st))
   = fst st + length (emitted (snd (fold (process_comment e) cids st)))"
proof (induction cids arbitrary: st)
  case Nil
  show ?case by simp
next
  case (Cons c cs)
  from Cons.IH [of "process_comment e c st"] process_comment_count [of e c st]
  show ?case by simp
qed

lemma fold_comments_emitted_bound:
  "length (emitted (snd st)) \<le> length (emitted (snd (fold (process_comment e) cids st))) \<and>
   length (emitted (snd (fold (process_comment e) cids st)))
     \<le> length (emitted (snd st)) + length cids"
proof (induction cids arbitrary: st)
  case Nil
  show ?case by simp
next
  case (Cons c cs)
  from Cons.IH [of "process_comment e c st"] process_comment_emitted_grows [of st e c]
  show ?case by simp
qed

lemma fold_comments_emit_calls:
  "emit_calls (snd (fold (process_comment e) cids st)) \<le> emit_calls (snd st) + length cids"
proof (induction cids arbitrary: st)
  case Nil
  show ?case by simp
next
  case (Cons c cs)
  from Cons.IH [of "process_comment e c st"] process_comment_emit_calls [of st e c]
  show ?case by simp
qed

lemma fold_comments_logs:
  "set (logs (snd st)) \<subseteq> set (logs (snd (fold (process_comment e) cids st)))"
proof (induction cids arbitrary: st)
  case Nil
  show ?case by simp
next
  case (Cons c cs)
  from Cons.IH [of "process_comment e c st"] process_comment_logs [of st e c]
  show ?case by auto
qed

lemma thread_comment_ids_length: "length (thread_comment_ids resp) \<le> 30"
  by (simp add: thread_comment_ids_def split: sum.splits option.splits)

text \<open>
  A pass of the outer loop is the inner loop over the comment ids of the thread, started
  from a world that differs from the given one in its requests and log only, and followed
  by log lines.
\<close>

lemma process_thread_as_fold:
  "\<exists>w2 ls. requests w2 = requests (snd st) @ [tid] \<and> emitted w2 = emitted (snd st) \<and>
      emit_calls w2 = emit_calls (snd st) \<and> store w2 = store (snd st) \<and>
      process_thread e tid st =
        (fst (fold (process_comment e)
                (thread_comment_ids (http_get e (length (requests (snd st))) tid)) (fst st, w2)),
         (snd (fold (process_comment e)
                (thread_comment_ids (http_get e (length (requests (snd st))) tid)) (fst st, w2)))
         \<lparr>logs := logs (snd (fold (process_comment e)
                (thread_comment_ids (http_get e (length (requests (snd st))) tid)) (fst st, w2)))
              @ ls\<rparr>)"
proof -
  define w1 where "w1 = (snd st)\<lparr>requests := requests (snd st) @ [tid]\<rparr>"
  have w1: "requests w1 = requests (snd st) @ [tid]" "emitted w1 = emitted (snd st)"
    "emit_calls w1 = emit_calls (snd st)" "store w1 = store (snd st)"
    by (simp_all add: w1_def)
  show ?thesis
  proof (cases "thread_comment_ids (http_get e (length (requests (snd st))) tid) = []
      \<and> (\<forall>t kids. http_get e (length (requests (snd st))) tid = Inr (Some t)
            \<longrightarrow> item_kids t \<noteq> Some kids)")
    case True
    have "\<exists>l. process_thread e tid st = (fst st, w1\<lparr>logs := logs w1 @ [l]\<rparr>)"
    proof (cases "http_get e (length (requests (snd st))) tid")
      case (Inl err)
      then show ?thesis
        by (simp add: process_thread_def Let_def add_log_def w1_def) blast
    next
      case (Inr thread)
      show ?thesis
      proof (cases thread)
        case None
        with Inr show ?thesis
          by (simp add: process_thread_def Let_def add_log_def w1_def) blast
      next
        case (Some t)
        with Inr True have "item_kids t = None"
          by (cases "item_kids t") auto
        with Inr Some show ?thesis
          by (simp add: process_thread_def Let_def add_log_def w1_def) blast
      qed
    qed
    then obtain l where
      "process_thread e tid st = (fst st, w1\<lparr>logs := logs w1 @ [l]\<rparr>)" ..
    with True w1 show ?thesis
      by (intro exI [of _ w1] exI [of _ "[l]"]) simp
  next
    case False
    then obtain t kids where t: "http_get e (length (requests (snd st))) tid = Inr (Some t)"
      and k: "item_kids t = Some kids"
      by (auto simp add: thread_comment_ids_def split: sum.splits option.splits)
    define w2 where "w2 = add_log INFO ''Processing HackerNews thread''
      [(''thread_id'', str_int tid), (''comment_count'', str_nat (length kids))] w1"
    have w2: "requests w2 = requests (snd st) @ [tid]" "emitted w2 = emitted (snd st)"
      "emit_calls w2 = emit_calls (snd st)" "store w2 = store (snd st)"
      by (simp_all add: w2_def add_log_def w1)
    have c: "thread_comment_ids (http_get e (length (requests (snd st))) tid) = take 30 kids"
      by (simp add: thread_comment_ids_def t k)
    have "process_thread e tid st =
        (fst (fold (process_comment e) (take 30 kids) (fst st, w2)),
         (snd (fold (process_comment e) (take 30 kids) (fst st, w2)))
         \<lparr>logs := logs (snd (fold (process_comment e) (take 30 kids) (fst st, w2)))
              @ [(INFO, ''Processed HackerNews thread'',
                  [(''thread_id'', str_int tid),
                   (''jobs_found'',
                    str_nat (fst (fold (process_comment e) (take 30 kids) (fst st, w2))))])]\<rparr>)"
      by (simp add: process_thread_def Let_def t k w2_def w1_def add_log_def)
    with w2 show ?thesis
      unfolding c
      by (intro exI [of _ w2] exI [of _ "[(INFO, ''Processed HackerNews thread'',
                  [(''thread_id'', str_int tid),
                   (''jobs_found'',
                    str_nat (fst (fold (process_comment e) (take 30 kids) (fst st, w2))))])]"])
        simp
  qed
qed

lemma process_thread_requests:
  "requests (snd (process_thread e tid st))
   = requests (snd st) @ tid # thread_comment_ids (http_get e (length (requests (snd st))) tid)"
  using process_thread_as_fold [of st tid e]
  by (auto simp add: fold_comments_requests)

lemma process_thread_store:
  "store (snd (process_thread e tid st)) = store (snd st)"
  using process_thread_as_fold [of st tid e]
  by (auto simp add: fold_comments_store)

lemma process_thread_count:
  "fst (process_thread e tid st) + length (emitted (snd st))
   = fst st + length (emitted (snd (process_thread e tid st)))"
proof -
  obtain w2 ls cids where e: "emitted w2 = emitted (snd st)"
    and p: "process_thread e tid st =
        (fst (fold (process_comment e) cids (fst st, w2)),
         (snd (fold (process_comment e) cids (fst st, w2)))
         \<lparr>logs := logs (snd (fold (process_comment e) cids (fst st, w2))) @ ls\<rparr>)"
    using process_thread_as_fold [of st tid e] by blast
  from fold_comments_count [of e cids "(fst st, w2)"] e show ?thesis
    unfolding p by simp
qed

lemma process_thread_emitted_bound:
  "length (emitted (snd (process_thread e tid st))) \<le> length (emitted (snd st)) + 30"
proof -
  obtain w2 ls where e: "emitted w2 = emitted (snd st)"
    and p: "process_thread e tid st =
        (fst (fold (process_comment e)
                (thread_comment_ids (http_get e (length (requests (snd st))) tid)) (fst st, w2)),
         (snd (fold (process_comment e)
                (thread_comment_ids (http_get e (length (requests (snd st))) tid)) (fst st, w2)))
         \<lparr>logs := logs (snd (fold (process_comment e)
                (thread_comment_ids (http_get e (length (requests (snd st))) tid)) (fst st, w2)))
              @ ls\<rparr>)"
    using process_thread_as_fold [of st tid e] by blast
  from fold_comments_emitted_bound [of "(fst st, w2)" e
      "thread_comment_ids (http_get e (length (requests (snd st))) tid)"]
    thread_comment_ids_length [of "http_get e (length (requests (snd st))) tid"] e
  show ?thesis unfolding p by simp
qed

lemma process_thread_emit_calls:
  "emit_calls (snd (process_thread e tid st)) \<le> emit_calls (snd st) + 30"
proof -
  obtain w2 ls where e: "emit_calls w2 = emit_calls (snd st)"
    and p: "process_thread e tid st =
        (fst (fold (process_comment e)
                (thread_comment_ids (http_get e (length (requests (snd st))) tid)) (fst st, w2)),
         (snd (fold (process_comment e)
                (thread_comment_ids (http_get e (length (requests (snd st))) tid)) (fst st, w2)))
         \<lparr>logs := logs (snd (fold (process_comment e)
                (thread_comment_ids (http_get e (length (requests (snd st))) tid)) (fst st, w2)))
              @ ls\<rparr>)"
    using process_thread_as_fold [of st tid e] by blast
  from fold_comments_emit_calls [of e
      "thread_comment_ids (http_get e (length (requests (snd st))) tid)" "(fst st, w2)"]
    thread_comment_ids_length [of "http_get e (length (requests (snd st))) tid"] e
  show ?thesis unfolding p by simp
qed

text \<open>The two branches of the handler.\<close>

lemma handler_matching:
  assumes "source inp = Some ''hackernews'' \<or> source inp = Some ''all''"
  shows "handler e inp w =
     (let st = process_thread e 42575537
                 (0, add_log INFO ''Fetching from HackerNews Who's Hiring'' [] w)
      in add_log INFO ''HackerNews fetch completed'' [(''total_jobs'', str_nat (fst st))]
           ((snd st)\<lparr>clock_reads := Suc (clock_reads (snd st)),
                     store := (store (snd st))((''sources'', ''hackernews'') \<mapsto>
                       \<lparr>lastFetch = now e (length (requests (snd st))),
                        jobCount = fst st,
                        status = (if fst st > 0 then ''success'' else ''error''),
                        error = (if fst st > 0 then None else Some ''No jobs found'')\<rparr>)\<rparr>))"
  using assms by (auto simp add: handler_def Let_def WHO_IS_HIRING_THREADS_def)

lemma handler_skips:
  assumes "source inp \<noteq> Some ''hackernews''" and "source inp \<noteq> Some ''all''"
  shows "handler e inp w = w"
  using assms by (cases "source inp") (simp_all add: handler_def)


text \<open>The run over the thread with one comment.\<close>

lemma lone_parse:
  "parse_hn_comment t lone_comment =
     Some \<lparr>p_id = ''101'', company = ''Acme'', title = ''Engineer'', location = ''Remote'',
            description = ''Acme | Engineer'',
            url = ''https://news.ycombinator.com/item?id=101'', posted_at = t\<rparr>"
proof -
  have a: "header_parts (py_split ''<p>'' ''Acme | Engineer'') = [''Acme'', ''Engineer'']"
    by code_simp
  have b: "strip (re_sub_tags '' '' ''Acme | Engineer'') = ''Acme | Engineer''"
    by code_simp
  have c: "str_id (Some 101) = ''101''" by code_simp
  have t: "item_text lone_comment = Some ''Acme | Engineer''"
    by (simp add: lone_comment_def)
  have p: "parse_hn_comment t lone_comment =
     Some \<lparr>p_id = str_id (item_id lone_comment),
            company = take 100 (if [''Acme'', ''Engineer''] ! 0 \<noteq> []
                                then [''Acme'', ''Engineer''] ! 0 else ''Unknown Company''),
            title = take 200 (if [''Acme'', ''Engineer''] ! 1 \<noteq> []
                              then [''Acme'', ''Engineer''] ! 1 else ''Software Engineer''),
            location = take 100 (if 2 < length [''Acme'', ''Engineer''] \<and>
                                    [''Acme'', ''Engineer''] ! 2 \<noteq> []
                                 then [''Acme'', ''Engineer''] ! 2 else ''Remote''),
            description = take 500 (strip (re_sub_tags '' '' ''Acme | Engineer'')),
            url = ''https://news.ycombinator.com/item?id='' @ str_id (item_id lone_comment),
            posted_at = (case item_time lone_comment of None \<Rightarrow> t | Some t \<Rightarrow> t)\<rparr>"
    by (rule parse_accepts [OF t _ a]) simp_all
  have i: "item_id lone_comment = Some 101" "item_time lone_comment = None"
    by (simp_all add: lone_comment_def)
  show ?thesis unfolding p b i c by simp
qed

lemma lone_run_emitted:
  "emitted (handler (clock_env t) trigger_all empty_world) =
     [\<lparr>topic = ''normalize-job'', ev_source = ''hackernews'',
       rawJob = \<lparr>p_id = ''101'', company = ''Acme'', title = ''Engineer'', location = ''Remote'',
                 description = ''Acme | Engineer'',
                 url = ''https://news.ycombinator.com/item?id=101'', posted_at = t\<rparr>\<rparr>]"
proof -
  have l: "item_text lone_comment = Some ''Acme | Engineer''" "item_deleted lone_comment = None"
    by (simp_all add: lone_comment_def)
  have k: "item_kids lone_thread = Some [101]" by (simp add: lone_thread_def)
  have s: "source trigger_all = Some ''hackernews'' \<or> source trigger_all = Some ''all''"
    by (simp add: trigger_all_def)
  show ?thesis
    unfolding handler_matching [OF s]
    by (simp add: process_thread_def process_comment_def Let_def add_log_def clock_env_def
        empty_world_def l k lone_parse truthy_text_def truthy_flag_def)
qed


section \<open>The run in terms of the results of its comments\<close>

text \<open>
  One pass of the inner loop adds the event of its comment when the result is a posting,
  counts it, and logs a warning when the result is a failure.
\<close>

lemma run_outcomes_length: "length (run_outcomes e n cids) = length cids"
  by (induction cids arbitrary: n) simp_all

lemma run_outcomes_nth:
  "j < length cids \<Longrightarrow> run_outcomes e n cids ! j = comment_outcome e (n + j) (cids ! j)"
proof (induction cids arbitrary: n j)
  case Nil
  then show ?case by simp
next
  case (Cons c cs)
  then show ?case by (cases j) simp_all
qed

lemma posted_events_Cons:
  "posted_events (x # os) = posted_events [x] @ posted_events os"
  by (cases x) simp_all

lemma posted_events_length: "length (posted_events os) \<le> length os"
  by (induction os rule: posted_events.induct) simp_all

lemma process_comment_emitted:
  "emitted (snd (process_comment e cid st))
   = emitted (snd st) @ posted_events [comment_outcome e (length (requests (snd st))) cid]"
  by (simp add: process_comment_def comment_outcome_def add_log_def Let_def
      split: sum.splits option.splits)

lemma process_comment_jobs:
  "fst (process_comment e cid st)
   = fst st + length (posted_events [comment_outcome e (length (requests (snd st))) cid])"
  by (simp add: process_comment_def comment_outcome_def add_log_def Let_def
      split: sum.splits option.splits)

lemma process_comment_outcome_logged:
  "comment_outcome e (length (requests (snd st))) cid = FetchFailed err \<or>
   comment_outcome e (length (requests (snd st))) cid = EmitFailed err \<Longrightarrow>
   (WARN, ''Failed to fetch comment '' @ str_int cid, [(''error'', err)])
     \<in> set (logs (snd (process_comment e cid st)))"
  by (auto simp add: process_comment_def comment_outcome_def add_log_def Let_def
      split: sum.splits option.splits if_splits)

lemma fold_comments_emitted:
  "emitted (snd (fold (process_comment e) cids st))
   = emitted (snd st) @ posted_events (run_outcomes e (length (requests (snd st))) cids)"
proof (induction cids arbitrary: st)
  case Nil
  show ?case by simp
next
  case (Cons c cs)
  have "emitted (snd (fold (process_comment e) (c # cs) st))
      = emitted (snd (process_comment e c st)) @
        posted_events (run_outcomes e (length (requests (snd (process_comment e c st)))) cs)"
    using Cons.IH [of "process_comment e c st"] by simp
  also have "\<dots> = emitted (snd st) @
        posted_events [comment_outcome e (length (requests (snd st))) c] @
        posted_events (run_outcomes e (Suc (length (requests (snd st)))) cs)"
    by (simp add: process_comment_emitted process_comment_requests)
  also have "\<dots> = emitted (snd st) @
        posted_events (run_outcomes e (length (requests (snd st))) (c # cs))"
    using posted_events_Cons [of "comment_outcome e (length (requests (snd st))) c"
        "run_outcomes e (Suc (length (requests (snd st)))) cs"]
    by simp
  finally show ?case .
qed

lemma fold_comments_jobs:
  "fst (fold (process_comment e) cids st)
   = fst st + length (posted_events (run_outcomes e (length (requests (snd st))) cids))"
  using fold_comments_count [of e cids st] fold_comments_emitted [of e cids st]
  by simp

lemma fold_comments_outcome_logged:
  "j < length cids \<Longrightarrow>
   comment_outcome e (length (requests (snd st)) + j) (cids ! j) = FetchFailed err \<or>
   comment_outcome e (length (requests (snd st)) + j) (cids ! j) = EmitFailed err \<Longrightarrow>
   (WARN, ''Failed to fetch comment '' @ str_int (cids ! j), [(''error'', err)])
     \<in> set (logs (snd (fold (process_comment e) cids st)))"
proof (induction cids arbitrary: st j)
  case Nil
  then show ?case by simp
next
  case (Cons c cs)
  show ?case
  proof (cases j)
    case 0
    with Cons.prems have "comment_outcome e (length (requests (snd st))) c = FetchFailed err \<or>
        comment_outcome e (length (requests (snd st))) c = EmitFailed err" by simp
    then have "(WARN, ''Failed to fetch comment '' @ str_int c, [(''error'', err)])
        \<in> set (logs (snd (process_comment e c st)))"
      by (rule process_comment_outcome_logged)
    with fold_comments_logs [of "process_comment e c st" e cs] 0 show ?thesis by auto
  next
    case (Suc k)
    with Cons.prems have k: "k < length cs"
      and g: "comment_outcome e (length (requests (snd (process_comment e c st))) + k) (cs ! k)
            = FetchFailed err \<or>
          comment_outcome e (length (requests (snd (process_comment e c st))) + k) (cs ! k)
            = EmitFailed err"
      by (simp_all add: process_comment_requests)
    from Cons.IH [OF k g] Suc show ?thesis by simp
  qed
qed

lemma posted_events_nth:
  "j < length os \<Longrightarrow> os ! j = Posted job \<Longrightarrow>
   \<lparr>topic = ''normalize-job'', ev_source = ''hackernews'', rawJob = job\<rparr> \<in> set (posted_events os)"
proof (induction os arbitrary: j rule: posted_events.induct)
  case 1
  then show ?case by simp
next
  case (2 job' os)
  then show ?case by (cases j) auto
next
  case (3 err os)
  then show ?case by (cases j) auto
next
  case (4 err os)
  then show ?case by (cases j) auto
next
  case (5 os)
  then show ?case by (cases j) auto
qed

text \<open>
  A run that passes the check of the source, in terms of the results of its comments.
\<close>

lemma handler_run:
  assumes src: "source input_data = Some ''hackernews'' \<or> source input_data = Some ''all''"
    and cids: "cids = thread_comment_ids (http_get e (length (requests w)) 42575537)"
    and os: "os = run_outcomes e (Suc (length (requests w))) cids"
  shows "requests (handler e input_data w) = requests w @ 42575537 # cids"
    and "emitted (handler e input_data w) = emitted w @ posted_events os"
    and "store (handler e input_data w) =
      (store w)((''sources'', ''hackernews'') \<mapsto>
         \<lparr>lastFetch = now e (Suc (length (requests w)) + length cids),
          jobCount = length (posted_events os),
          status = (if length (posted_events os) > 0 then ''success'' else ''error''),
          error = (if length (posted_events os) > 0 then None else Some ''No jobs found'')\<rparr>)"
    and "\<And>j err. j < length cids \<Longrightarrow> os ! j = FetchFailed err \<or> os ! j = EmitFailed err \<Longrightarrow>
      (WARN, ''Failed to fetch comment '' @ str_int (cids ! j), [(''error'', err)])
        \<in> set (logs (handler e input_data w))"
    and "last (logs (handler e input_data w))
      = (INFO, ''HackerNews fetch completed'',
         [(''total_jobs'', str_nat (length (posted_events os)))])"
proof -
  define st0 where "st0 = (0 :: nat, add_log INFO ''Fetching from HackerNews Who's Hiring'' [] w)"
  define st where "st = process_thread e 42575537 st0"
  have h: "handler e input_data w =
      add_log INFO ''HackerNews fetch completed'' [(''total_jobs'', str_nat (fst st))]
           ((snd st)\<lparr>clock_reads := Suc (clock_reads (snd st)),
                     store := (store (snd st))((''sources'', ''hackernews'') \<mapsto>
                       \<lparr>lastFetch = now e (length (requests (snd st))),
                        jobCount = fst st,
                        status = (if fst st > 0 then ''success'' else ''error''),
                        error = (if fst st > 0 then None else Some ''No jobs found'')\<rparr>)\<rparr>)"
    unfolding handler_matching [OF src] st_def st0_def by (simp add: Let_def)
  have w0: "requests (snd st0) = requests w" "emitted (snd st0) = emitted w"
    "store (snd st0) = store w" "fst st0 = 0"
    by (simp_all add: st0_def add_log_def)
  obtain w2 ls where w2: "requests w2 = requests (snd st0) @ [42575537]"
      "emitted w2 = emitted (snd st0)"
    and p: "st = (fst (fold (process_comment e) cids (fst st0, w2)),
         (snd (fold (process_comment e) cids (fst st0, w2)))
         \<lparr>logs := logs (snd (fold (process_comment e) cids (fst st0, w2))) @ ls\<rparr>)"
    using process_thread_as_fold [of st0 42575537 e] unfolding st_def cids w0 by blast
  have n: "length (requests (snd (fst st0, w2))) = Suc (length (requests w))"
    by (simp add: w2 w0)
  have r: "requests (snd st) = requests w @ 42575537 # cids"
    unfolding p by (simp add: fold_comments_requests w2 w0)
  have em: "emitted (snd st) = emitted w @ posted_events os"
    unfolding p using fold_comments_emitted [of e cids "(fst st0, w2)"]
    by (simp add: w2 w0 os)
  have j: "fst st = length (posted_events os)"
    unfolding p using fold_comments_jobs [of e cids "(fst st0, w2)"]
    by (simp add: w2 w0 os)
  have s: "store (snd st) = store w"
    by (simp add: st_def process_thread_store w0)
  show "requests (handler e input_data w) = requests w @ 42575537 # cids"
    unfolding h using r by (simp add: add_log_def)
  show "emitted (handler e input_data w) = emitted w @ posted_events os"
    unfolding h using em by (simp add: add_log_def)
  show "store (handler e input_data w) =
      (store w)((''sources'', ''hackernews'') \<mapsto>
         \<lparr>lastFetch = now e (Suc (length (requests w)) + length cids),
          jobCount = length (posted_events os),
          status = (if length (posted_events os) > 0 then ''success'' else ''error''),
          error = (if length (posted_events os) > 0 then None else Some ''No jobs found'')\<rparr>)"
    unfolding h using r s j by (simp add: add_log_def)
  show "last (logs (handler e input_data w))
      = (INFO, ''HackerNews fetch completed'',
         [(''total_jobs'', str_nat (length (posted_events os)))])"
    unfolding h using j by (simp add: add_log_def)
  fix k err
  assume k: "k < length cids" and f: "os ! k = FetchFailed err \<or> os ! k = EmitFailed err"
  from f k have "comment_outcome e (length (requests (snd (fst st0, w2))) + k) (cids ! k)
        = FetchFailed err \<or>
      comment_outcome e (length (requests (snd (fst st0, w2))) + k) (cids ! k) = EmitFailed err"
    unfolding n os by (simp add: run_outcomes_nth)
  from fold_comments_outcome_logged [OF k this]
  have "(WARN, ''Failed to fetch comment '' @ str_int (cids ! k), [(''error'', err)])
     \<in> set (logs (snd st))"
    unfolding p by simp
  then show "(WARN, ''Failed to fetch comment '' @ str_int (cids ! k), [(''error'', err)])
        \<in> set (logs (handler e input_data w))"
    unfolding h by (simp add: add_log_def)
qed


lemma lone_thread_ids:
  "thread_comment_ids (Inr (Some lone_thread)) = [101]"
  by (simp add: thread_comment_ids_def lone_thread_def)

lemma mute_run:
  "emitted (handler mute_env trigger_all empty_world) = []"
  "store (handler mute_env trigger_all empty_world) (''sources'', ''hackernews'')
   = Some \<lparr>lastFetch = 1, jobCount = 0, status = ''error'', error = Some ''No jobs found''\<rparr>"
proof -
  have s: "source trigger_all = Some ''hackernews'' \<or> source trigger_all = Some ''all''"
    by (simp add: trigger_all_def)
  have c: "[101] = thread_comment_ids (http_get mute_env (length (requests empty_world)) 42575537)"
    by (simp add: mute_env_def lone_thread_ids)
  have l: "item_text lone_comment = Some ''Acme | Engineer''" "item_deleted lone_comment = None"
    by (simp_all add: lone_comment_def)
  have o: "[EmitFailed ''bus down''] = run_outcomes mute_env (Suc (length (requests empty_world))) [101]"
    by (simp add: comment_outcome_def mute_env_def l lone_parse truthy_text_def truthy_flag_def)
  note run = handler_run [OF s c o]
  show "emitted (handler mute_env trigger_all empty_world) = []"
    using run(2) by (simp add: empty_world_def)
  show "store (handler mute_env trigger_all empty_world) (''sources'', ''hackernews'')
   = Some \<lparr>lastFetch = 1, jobCount = 0, status = ''error'', error = Some ''No jobs found''\<rparr>"
    using run(3) by (simp add: mute_env_def)
qed

lemma lone_run_store:
  "store (handler (clock_env t) trigger_all empty_world) (''sources'', ''hackernews'')
   = Some \<lparr>lastFetch = t, jobCount = 1, status = ''success'', error = None\<rparr>"
proof -
  have s: "source trigger_all = Some ''hackernews'' \<or> source trigger_all = Some ''all''"
    by (simp add: trigger_all_def)
  have c: "[101] = thread_comment_ids (http_get (clock_env t) (length (requests empty_world)) 42575537)"
    by (simp add: clock_env_def lone_thread_ids)
  have l: "item_text lone_comment = Some ''Acme | Engineer''" "item_deleted lone_comment = None"
    by (simp_all add: lone_comment_def)
  have o: "[Posted \<lparr>p_id = ''101'', company = ''Acme'', title = ''Engineer'', location = ''Remote'',
            description = ''Acme | Engineer'',
            url = ''https://news.ycombinator.com/item?id=101'', posted_at = t\<rparr>]
      = run_outcomes (clock_env t) (Suc (length (requests empty_world))) [101]"
    by (simp add: comment_outcome_def clock_env_def l lone_parse truthy_text_def truthy_flag_def)
  from handler_run(3) [OF s c o] show ?thesis by (simp add: clock_env_def)
qed

lemma timed_parse:
  "parse_hn_comment t timed_comment =
     Some \<lparr>p_id = ''101'', company = ''Acme'', title = ''Engineer'', location = ''Remote'',
            description = ''Acme | Engineer'',
            url = ''https://news.ycombinator.com/item?id=101'', posted_at = 1735750000\<rparr>"
proof -
  have a: "header_parts (py_split ''<p>'' ''Acme | Engineer'') = [''Acme'', ''Engineer'']"
    by code_simp
  have b: "strip (re_sub_tags '' '' ''Acme | Engineer'') = ''Acme | Engineer''"
    by code_simp
  have c: "str_id (Some 101) = ''101''" by code_simp
  have t: "item_text timed_comment = Some ''Acme | Engineer''"
    by (simp add: timed_comment_def)
  have p: "parse_hn_comment t timed_comment =
     Some \<lparr>p_id = str_id (item_id timed_comment),
            company = take 100 (if [''Acme'', ''Engineer''] ! 0 \<noteq> []
                                then [''Acme'', ''Engineer''] ! 0 else ''Unknown Company''),
            title = take 200 (if [''Acme'', ''Engineer''] ! 1 \<noteq> []
                              then [''Acme'', ''Engineer''] ! 1 else ''Software Engineer''),
            location = take 100 (if 2 < length [''Acme'', ''Engineer''] \<and>
                                    [''Acme'', ''Engineer''] ! 2 \<noteq> []
                                 then [''Acme'', ''Engineer''] ! 2 else ''Remote''),
            description = take 500 (strip (re_sub_tags '' '' ''Acme | Engineer'')),
            url = ''https://news.ycombinator.com/item?id='' @ str_id (item_id timed_comment),
            posted_at = (case item_time timed_comment of None \<Rightarrow> t | Some t \<Rightarrow> t)\<rparr>"
    by (rule parse_accepts [OF t _ a]) simp_all
  have i: "item_id timed_comment = Some 101" "item_time timed_comment = Some 1735750000"
    by (simp_all add: timed_comment_def)
  show ?thesis unfolding p b i c by simp
qed

lemma initech_parse:
  "parse_hn_comment t (demo_comment 103 ''Initech | SRE | Austin<p>Apply'' None) =
     Some \<lparr>p_id = ''103'', company = ''Initech'', title = ''SRE'', location = ''Austin'',
            description = ''Initech | SRE | Austin Apply'',
            url = ''https://news.ycombinator.com/item?id=103'', posted_at = t\<rparr>"
proof -
  have a: "header_parts (py_split ''<p>'' ''Initech | SRE | Austin<p>Apply'')
      = [''Initech'', ''SRE'', ''Austin'']"
    by code_simp
  have b: "strip (re_sub_tags '' '' ''Initech | SRE | Austin<p>Apply'')
      = ''Initech | SRE | Austin Apply''"
    by code_simp
  have c: "str_id (Some 103) = ''103''" by code_simp
  have t: "item_text (demo_comment 103 ''Initech | SRE | Austin<p>Apply'' None)
      = Some ''Initech | SRE | Austin<p>Apply''"
    by (simp add: demo_comment_def)
  have i: "item_id (demo_comment 103 ''Initech | SRE | Austin<p>Apply'' None) = Some 103"
    "item_time (demo_comment 103 ''Initech | SRE | Austin<p>Apply'' None) = None"
    by (simp_all add: demo_comment_def)
  have p: "parse_hn_comment t (demo_comment 103 ''Initech | SRE | Austin<p>Apply'' None) =
     Some \<lparr>p_id = str_id (item_id (demo_comment 103 ''Initech | SRE | Austin<p>Apply'' None)),
            company = take 100 (if [''Initech'', ''SRE'', ''Austin''] ! 0 \<noteq> []
                                then [''Initech'', ''SRE'', ''Austin''] ! 0 else ''Unknown Company''),
            title = take 200 (if [''Initech'', ''SRE'', ''Austin''] ! 1 \<noteq> []
                              then [''Initech'', ''SRE'', ''Austin''] ! 1 else ''Software Engineer''),
            location = take 100 (if 2 < length [''Initech'', ''SRE'', ''Austin''] \<and>
                                    [''Initech'', ''SRE'', ''Austin''] ! 2 \<noteq> []
                                 then [''Initech'', ''SRE'', ''Austin''] ! 2 else ''Remote''),
            description = take 500 (strip (re_sub_tags '' '' ''Initech | SRE | Austin<p>Apply'')),
            url = ''https://news.ycombinator.com/item?id=''
                  @ str_id (item_id (demo_comment 103 ''Initech | SRE | Austin<p>Apply'' None)),
            posted_at = (case item_time (demo_comment 103 ''Initech | SRE | Austin<p>Apply'' None)
                         of None \<Rightarrow> t | Some t \<Rightarrow> t)\<rparr>"
    by (rule parse_accepts [OF t _ a]) simp_all
  show ?thesis unfolding p b i c by simp
qed

lemma faulty_outcomes:
  "comment_outcome faulty_env 1 101 = EmitFailed ''bus down''"
  "comment_outcome faulty_env 2 102 = FetchFailed ''timeout''"
  "comment_outcome faulty_env 3 103 =
     Posted \<lparr>p_id = ''103'', company = ''Initech'', title = ''SRE'', location = ''Austin'',
            description = ''Initech | SRE | Austin Apply'',
            url = ''https://news.ycombinator.com/item?id=103'', posted_at = 1736000003\<rparr>"
proof -
  have l: "item_text lone_comment = Some ''Acme | Engineer''" "item_deleted lone_comment = None"
    by (simp_all add: lone_comment_def)
  have d: "item_text (demo_comment 103 ''Initech | SRE | Austin<p>Apply'' None)
      = Some ''Initech | SRE | Austin<p>Apply''"
    "item_deleted (demo_comment 103 ''Initech | SRE | Austin<p>Apply'' None) = None"
    by (simp_all add: demo_comment_def)
  show "comment_outcome faulty_env 1 101 = EmitFailed ''bus down''"
    by (simp add: comment_outcome_def faulty_env_def l lone_parse truthy_text_def truthy_flag_def)
  show "comment_outcome faulty_env 2 102 = FetchFailed ''timeout''"
    by (simp add: comment_outcome_def faulty_env_def)
  show "comment_outcome faulty_env 3 103 =
     Posted \<lparr>p_id = ''103'', company = ''Initech'', title = ''SRE'', location = ''Austin'',
            description = ''Initech | SRE | Austin Apply'',
            url = ''https://news.ycombinator.com/item?id=103'', posted_at = 1736000003\<rparr>"
    by (simp add: comment_outcome_def faulty_env_def d initech_parse truthy_text_def truthy_flag_def)
qed

section \<open>Two runs over the same responses\<close>

text \<open>
  The clock reaches the record through \<open>posted_at\<close> only, and only when the comment has
  no \<open>time\<close>; so the results of two runs that get the same responses and the same
  outcomes of \<open>context.emit\<close> differ in \<open>posted_at\<close> at most.
\<close>

lemma parse_forget_time:
  "map_option (\<lambda>r. r\<lparr>posted_at := 0\<rparr>) (parse_hn_comment n1 c)
   = map_option (\<lambda>r. r\<lparr>posted_at := 0\<rparr>) (parse_hn_comment n2 c)"
  by (simp add: parse_hn_comment_def Let_def)

lemma parse_with_time:
  "item_time c \<noteq> None \<Longrightarrow> parse_hn_comment n1 c = parse_hn_comment n2 c"
  by (auto simp add: parse_hn_comment_def Let_def)

lemma comment_outcome_forget_time:
  assumes hg: "http_get e1 = http_get e2" and ee: "emit_error e1 = emit_error e2"
  shows "map forget_time (posted_events [comment_outcome e1 n i])
       = map forget_time (posted_events [comment_outcome e2 n i])"
proof (cases "http_get e2 n i")
  case (Inl err)
  then show ?thesis by (simp add: comment_outcome_def hg)
next
  case (Inr resp)
  show ?thesis
  proof (cases resp)
    case None
    with Inr show ?thesis by (simp add: comment_outcome_def hg)
  next
    case (Some c)
    show ?thesis
    proof (cases "parse_hn_comment (now e1 n) c")
      case None
      with parse_forget_time [of "now e1 n" c "now e2 n"]
      have "parse_hn_comment (now e2 n) c = None" by simp
      with None Inr Some show ?thesis by (simp add: comment_outcome_def hg)
    next
      case (Some r1)
      with parse_forget_time [of "now e1 n" c "now e2 n"]
      obtain r2 where r2: "parse_hn_comment (now e2 n) c = Some r2"
        and eq: "r1\<lparr>posted_at := 0\<rparr> = r2\<lparr>posted_at := 0\<rparr>"
        by (cases "parse_hn_comment (now e2 n) c") auto
      from Some r2 eq Inr \<open>resp = Some c\<close> show ?thesis
        by (cases "emit_error e2 n") (simp_all add: comment_outcome_def hg ee forget_time_def)
    qed
  qed
qed

lemma run_outcomes_forget_time:
  assumes hg: "http_get e1 = http_get e2" and ee: "emit_error e1 = emit_error e2"
  shows "map forget_time (posted_events (run_outcomes e1 n cids))
       = map forget_time (posted_events (run_outcomes e2 n cids))"
proof (induction cids arbitrary: n)
  case Nil
  show ?case by simp
next
  case (Cons c cs)
  have "map forget_time (posted_events (run_outcomes e1 n (c # cs)))
      = map forget_time (posted_events [comment_outcome e1 n c]) @
        map forget_time (posted_events (run_outcomes e1 (Suc n) cs))"
    using posted_events_Cons [of "comment_outcome e1 n c" "run_outcomes e1 (Suc n) cs"] by simp
  also have "\<dots> = map forget_time (posted_events [comment_outcome e2 n c]) @
        map forget_time (posted_events (run_outcomes e2 (Suc n) cs))"
    by (simp only: comment_outcome_forget_time [OF hg ee] Cons.IH)
  also have "\<dots> = map forget_time (posted_events (run_outcomes e2 n (c # cs)))"
    using posted_events_Cons [of "comment_outcome e2 n c" "run_outcomes e2 (Suc n) cs"] by simp
  finally show ?case .
qed

lemma comment_outcome_timed:
  assumes hg: "http_get e1 = http_get e2" and ee: "emit_error e1 = emit_error e2"
    and t: "\<forall>c. http_get e1 n i = Inr (Some c) \<longrightarrow> item_time c \<noteq> None"
  shows "comment_outcome e1 n i = comment_outcome e2 n i"
proof (cases "http_get e1 n i")
  case (Inl err)
  then show ?thesis by (simp add: comment_outcome_def hg [symmetric])
next
  case (Inr resp)
  show ?thesis
  proof (cases resp)
    case None
    with Inr show ?thesis by (simp add: comment_outcome_def hg [symmetric])
  next
    case (Some c)
    with Inr t have "item_time c \<noteq> None" by simp
    then have "parse_hn_comment (now e1 n) c = parse_hn_comment (now e2 n) c"
      by (rule parse_with_time)
    moreover have "emit_error e1 n = emit_error e2 n" by (simp add: ee)
    ultimately show ?thesis using Inr Some
      by (simp add: comment_outcome_def hg [symmetric] split: option.splits)
  qed
qed

lemma run_outcomes_timed:
  assumes hg: "http_get e1 = http_get e2" and ee: "emit_error e1 = emit_error e2"
  shows "\<forall>j c. j < length cids \<longrightarrow> http_get e1 (n + j) (cids ! j) = Inr (Some c) \<longrightarrow>
            item_time c \<noteq> None \<Longrightarrow>
         run_outcomes e1 n cids = run_outcomes e2 n cids"
proof (induction cids arbitrary: n)
  case Nil
  show ?case by simp
next
  case (Cons i cs)
  from Cons.prems [rule_format, of 0]
  have "\<forall>c. http_get e1 n i = Inr (Some c) \<longrightarrow> item_time c \<noteq> None" by simp
  then have a: "comment_outcome e1 n i = comment_outcome e2 n i"
    by (rule comment_outcome_timed [OF hg ee])
  have "\<forall>j c. j < length cs \<longrightarrow> http_get e1 (Suc n + j) (cs ! j) = Inr (Some c) \<longrightarrow>
            item_time c \<noteq> None"
  proof (intro allI impI)
    fix j c
    assume "j < length cs" and "http_get e1 (Suc n + j) (cs ! j) = Inr (Some c)"
    with Cons.prems [rule_format, of "Suc j" c] show "item_time c \<noteq> None" by simp
  qed
  then have "run_outcomes e1 (Suc n) cs = run_outcomes e2 (Suc n) cs"
    by (rule Cons.IH)
  with a show ?case by simp
qed

section \<open>C8: a trigger for another source\<close>

text \<open>
  C8. For every trigger whose \<open>source\<close> is neither \<open>hackernews\<close> nor \<open>all\<close> (an absent
  \<open>source\<close> is read as the empty string) the handler leaves the world as it is: it
  issues no request, emits no event, and the state store is unchanged.
\<close>

theorem C8_other_source_is_skipped:
  "source input_data \<noteq> Some ''hackernews'' \<Longrightarrow> source input_data \<noteq> Some ''all'' \<Longrightarrow>
   handler e input_data w = w \<and>
   requests (handler e input_data w) = requests w \<and>
   emitted (handler e input_data w) = emitted w \<and>
   emit_calls (handler e input_data w) = emit_calls w \<and>
   store (handler e input_data w) = store w"
  by (simp add: handler_skips)

text \<open>C8 at the trigger for \<open>github\<close>.\<close>

theorem C8_other_source_is_skipped_witness:
  "source trigger_github \<noteq> Some ''hackernews'' \<and> source trigger_github \<noteq> Some ''all'' \<and>
   handler demo_env trigger_github empty_world = empty_world \<and>
   requests (handler demo_env trigger_github empty_world) = [] \<and>
   emitted (handler demo_env trigger_github empty_world) = []"
proof -
  have a: "source trigger_github \<noteq> Some ''hackernews''"
    and b: "source trigger_github \<noteq> Some ''all''"
    by (simp_all add: trigger_github_def)
  from C8_other_source_is_skipped [OF a b, of demo_env empty_world] a b
  show ?thesis by (simp add: empty_world_def)
qed

section \<open>C7: the status record\<close>

text \<open>
  C7. A run whose source is \<open>hackernews\<close> or \<open>all\<close> ends with a record under the
  namespace \<open>sources\<close> and the key \<open>hackernews\<close>. Its \<open>jobCount\<close> is the number of events
  emitted by this run; its \<open>status\<close> is \<open>error\<close> exactly when \<open>jobCount\<close> is 0 and
  \<open>success\<close> otherwise; its \<open>error\<close> is null exactly when the status is \<open>success\<close>;
  \<open>lastFetch\<close> is a reading of the clock. No other key of the store changes.
\<close>

theorem C7_status_record:
  assumes "source input_data = Some ''hackernews'' \<or> source input_data = Some ''all''"
  shows "\<exists>r. store (handler e input_data w) (''sources'', ''hackernews'') = Some r \<and>
     jobCount r + length (emitted w) = length (emitted (handler e input_data w)) \<and>
     (status r = ''error'' \<longleftrightarrow> jobCount r = 0) \<and>
     (status r = ''success'' \<longleftrightarrow> jobCount r \<noteq> 0) \<and>
     (error r = None \<longleftrightarrow> status r = ''success'') \<and>
     (error r = Some ''No jobs found'' \<longleftrightarrow> status r = ''error'') \<and>
     (\<exists>k. lastFetch r = now e k) \<and>
     (\<forall>key. key \<noteq> (''sources'', ''hackernews'') \<longrightarrow>
        store (handler e input_data w) key = store w key)"
proof -
  define st where "st = process_thread e 42575537
      (0, add_log INFO ''Fetching from HackerNews Who's Hiring'' [] w)"
  have h: "handler e input_data w =
      add_log INFO ''HackerNews fetch completed'' [(''total_jobs'', str_nat (fst st))]
           ((snd st)\<lparr>clock_reads := Suc (clock_reads (snd st)),
                     store := (store (snd st))((''sources'', ''hackernews'') \<mapsto>
                       \<lparr>lastFetch = now e (length (requests (snd st))),
                        jobCount = fst st,
                        status = (if fst st > 0 then ''success'' else ''error''),
                        error = (if fst st > 0 then None else Some ''No jobs found'')\<rparr>)\<rparr>)"
    unfolding handler_matching [OF assms] st_def by (simp add: Let_def)
  have c: "fst st + length (emitted w) = length (emitted (snd st))"
    using process_thread_count [of e 42575537
        "(0, add_log INFO ''Fetching from HackerNews Who's Hiring'' [] w)"]
    by (simp add: st_def add_log_def)
  have s: "store (snd st) = store w"
    by (simp add: st_def process_thread_store add_log_def)
  show ?thesis
    unfolding h using c s by (auto simp add: add_log_def)
qed

text \<open>C7 at the run over the thread with one comment.\<close>

theorem C7_status_record_witness:
  "(source trigger_all = Some ''hackernews'' \<or> source trigger_all = Some ''all'') \<and>
   (\<exists>r. store (handler (clock_env 5) trigger_all empty_world) (''sources'', ''hackernews'') = Some r \<and>
      jobCount r = 1 \<and> status r = ''success'' \<and> error r = None)"
proof -
  have a: "source trigger_all = Some ''hackernews'' \<or> source trigger_all = Some ''all''"
    by (simp add: trigger_all_def)
  have e: "length (emitted (handler (clock_env 5) trigger_all empty_world)) = 1"
    by (simp add: lone_run_emitted)
  have e0: "emitted empty_world = []"
    by (simp add: empty_world_def)
  from C7_status_record [OF a, of "clock_env 5" empty_world] a e e0
  show ?thesis by auto
qed


section \<open>C6: a failing comment does not stop the run\<close>

text \<open>
  C6. Take a run that passes the check of the source and whose thread is fetched with a
  list of \<open>kids\<close>; the comment ids are the first 30 of them, requested as the requests
  that follow the one for the thread. Whatever happens to any comment, every comment id
  is requested, in order; the result at each position is the one of that comment alone
  (\<open>comment_outcome\<close>); the events emitted by the run are exactly the postings among
  these results, in order, so a comment whose own request, parse and \<open>emit\<close> go through
  is emitted and counted wherever the failures are; every failed request and every
  failed \<open>emit\<close> is logged as a warning that names the comment and carries the message of
  the exception; and the run ends with the status record, whose \<open>jobCount\<close> is the number
  of these postings, and with the closing log line.
\<close>

theorem C6_comment_failures_are_skipped:
  assumes src: "source input_data = Some ''hackernews'' \<or> source input_data = Some ''all''"
    and th: "http_get e (length (requests w)) 42575537 = Inr (Some thread)"
    and kids: "item_kids thread = Some kids"
  shows "let cids = take 30 kids; n = Suc (length (requests w));
             os = run_outcomes e n cids; w' = handler e input_data w
     in requests w' = requests w @ 42575537 # cids \<and>
        length os = length cids \<and>
        (\<forall>j. j < length cids \<longrightarrow> os ! j = comment_outcome e (n + j) (cids ! j)) \<and>
        emitted w' = emitted w @ posted_events os \<and>
        (\<forall>j job. j < length cids \<longrightarrow> comment_outcome e (n + j) (cids ! j) = Posted job \<longrightarrow>
           \<lparr>topic = ''normalize-job'', ev_source = ''hackernews'', rawJob = job\<rparr>
             \<in> set (emitted w')) \<and>
        (\<forall>j err. j < length cids \<longrightarrow>
           comment_outcome e (n + j) (cids ! j) = FetchFailed err \<or>
           comment_outcome e (n + j) (cids ! j) = EmitFailed err \<longrightarrow>
           (WARN, ''Failed to fetch comment '' @ str_int (cids ! j), [(''error'', err)])
             \<in> set (logs w')) \<and>
        (\<exists>r. store w' (''sources'', ''hackernews'') = Some r \<and>
           jobCount r = length (posted_events os)) \<and>
        last (logs w') = (INFO, ''HackerNews fetch completed'',
                          [(''total_jobs'', str_nat (length (posted_events os)))])"
proof -
  define cids where "cids = take 30 kids"
  define n where "n = Suc (length (requests w))"
  define os where "os = run_outcomes e n cids"
  define w' where "w' = handler e input_data w"
  have c: "cids = thread_comment_ids (http_get e (length (requests w)) 42575537)"
    by (simp add: cids_def thread_comment_ids_def th kids)
  have o: "os = run_outcomes e (Suc (length (requests w))) cids"
    by (simp add: os_def n_def)
  note run = handler_run [OF src c o, folded w'_def]
  have l: "length os = length cids"
    by (simp add: os_def run_outcomes_length)
  have nth: "\<forall>j. j < length cids \<longrightarrow> os ! j = comment_outcome e (n + j) (cids ! j)"
    by (simp add: os_def run_outcomes_nth)
  have posted: "\<forall>j job. j < length cids \<longrightarrow> comment_outcome e (n + j) (cids ! j) = Posted job \<longrightarrow>
           \<lparr>topic = ''normalize-job'', ev_source = ''hackernews'', rawJob = job\<rparr>
             \<in> set (emitted w')"
  proof (intro allI impI)
    fix j job
    assume j: "j < length cids" and p: "comment_outcome e (n + j) (cids ! j) = Posted job"
    from j p nth have "os ! j = Posted job" by simp
    with j l have "\<lparr>topic = ''normalize-job'', ev_source = ''hackernews'', rawJob = job\<rparr>
        \<in> set (posted_events os)"
      by (simp add: posted_events_nth)
    then show "\<lparr>topic = ''normalize-job'', ev_source = ''hackernews'', rawJob = job\<rparr>
        \<in> set (emitted w')"
      by (simp add: run(2))
  qed
  have warned: "\<forall>j err. j < length cids \<longrightarrow>
           comment_outcome e (n + j) (cids ! j) = FetchFailed err \<or>
           comment_outcome e (n + j) (cids ! j) = EmitFailed err \<longrightarrow>
           (WARN, ''Failed to fetch comment '' @ str_int (cids ! j), [(''error'', err)])
             \<in> set (logs w')"
  proof (intro allI impI)
    fix j err
    assume j: "j < length cids"
      and f: "comment_outcome e (n + j) (cids ! j) = FetchFailed err \<or>
           comment_outcome e (n + j) (cids ! j) = EmitFailed err"
    from j f nth have "os ! j = FetchFailed err \<or> os ! j = EmitFailed err" by simp
    with j show "(WARN, ''Failed to fetch comment '' @ str_int (cids ! j), [(''error'', err)])
             \<in> set (logs w')"
      by (rule run(4))
  qed
  have rec: "\<exists>r. store w' (''sources'', ''hackernews'') = Some r \<and>
           jobCount r = length (posted_events os)"
    by (simp add: run(3))
  from run(1) l nth run(2) posted warned rec run(5)
  show ?thesis
    unfolding Let_def cids_def [symmetric] n_def [symmetric] os_def [symmetric] w'_def [symmetric]
    by blast
qed

text \<open>
  C6 at the thread with three comments: the \<open>emit\<close> of the first comment fails, the
  request for the second fails, both are logged, and the third comment is emitted and
  counted.
\<close>

theorem C6_comment_failures_are_skipped_witness:
  "(source trigger_all = Some ''hackernews'' \<or> source trigger_all = Some ''all'') \<and>
   http_get faulty_env (length (requests empty_world)) 42575537 = Inr (Some demo_thread) \<and>
   item_kids demo_thread = Some [101, 102, 103] \<and>
   comment_outcome faulty_env 1 101 = EmitFailed ''bus down'' \<and>
   comment_outcome faulty_env 2 102 = FetchFailed ''timeout'' \<and>
   requests (handler faulty_env trigger_all empty_world) = [42575537, 101, 102, 103] \<and>
   emitted (handler faulty_env trigger_all empty_world) =
     [\<lparr>topic = ''normalize-job'', ev_source = ''hackernews'',
       rawJob = \<lparr>p_id = ''103'', company = ''Initech'', title = ''SRE'', location = ''Austin'',
                 description = ''Initech | SRE | Austin Apply'',
                 url = ''https://news.ycombinator.com/item?id=103'', posted_at = 1736000003\<rparr>\<rparr>] \<and>
   (WARN, ''Failed to fetch comment 101'', [(''error'', ''bus down'')])
     \<in> set (logs (handler faulty_env trigger_all empty_world)) \<and>
   (WARN, ''Failed to fetch comment 102'', [(''error'', ''timeout'')])
     \<in> set (logs (handler faulty_env trigger_all empty_world)) \<and>
   (\<exists>r. store (handler faulty_env trigger_all empty_world) (''sources'', ''hackernews'') = Some r \<and>
        jobCount r = 1)"
proof -
  have a: "source trigger_all = Some ''hackernews'' \<or> source trigger_all = Some ''all''"
    by (simp add: trigger_all_def)
  have t: "http_get faulty_env (length (requests empty_world)) 42575537 = Inr (Some demo_thread)"
    by (simp add: faulty_env_def)
  have k: "item_kids demo_thread = Some [101, 102, 103]"
    by (simp add: demo_thread_def)
  have r: "requests empty_world = []" "emitted empty_world = []"
    by (simp_all add: empty_world_def)
  have s: "str_int 101 = ''101''" "str_int 102 = ''102''" by code_simp+
  have o: "comment_outcome faulty_env (Suc 0) 101 = EmitFailed ''bus down''"
    "comment_outcome faulty_env (Suc (Suc 0)) 102 = FetchFailed ''timeout''"
    "comment_outcome faulty_env (Suc (Suc (Suc 0))) 103 =
       Posted \<lparr>p_id = ''103'', company = ''Initech'', title = ''SRE'', location = ''Austin'',
            description = ''Initech | SRE | Austin Apply'',
            url = ''https://news.ycombinator.com/item?id=103'', posted_at = 1736000003\<rparr>"
    using faulty_outcomes by (simp_all add: numeral_2_eq_2 numeral_3_eq_3)
  note c6 = C6_comment_failures_are_skipped [OF a t k, unfolded Let_def r, simplified]
  from c6 have 1: "requests (handler faulty_env trigger_all empty_world) = [42575537, 101, 102, 103]"
    by simp
  from c6 have 2: "emitted (handler faulty_env trigger_all empty_world) =
     [\<lparr>topic = ''normalize-job'', ev_source = ''hackernews'',
       rawJob = \<lparr>p_id = ''103'', company = ''Initech'', title = ''SRE'', location = ''Austin'',
                 description = ''Initech | SRE | Austin Apply'',
                 url = ''https://news.ycombinator.com/item?id=103'', posted_at = 1736000003\<rparr>\<rparr>]"
    by (simp add: o)
  from c6 have w: "\<forall>j err. j < 3 \<longrightarrow>
           comment_outcome faulty_env (Suc j) ([101, 102, 103] ! j) = FetchFailed err \<or>
           comment_outcome faulty_env (Suc j) ([101, 102, 103] ! j) = EmitFailed err \<longrightarrow>
           (WARN, ''Failed to fetch comment '' @ str_int ([101, 102, 103] ! j), [(''error'', err)])
             \<in> set (logs (handler faulty_env trigger_all empty_world))"
    by simp
  from w [rule_format, of 0 "''bus down''"] o(1) s
  have 3: "(WARN, ''Failed to fetch comment 101'', [(''error'', ''bus down'')])
     \<in> set (logs (handler faulty_env trigger_all empty_world))"
    by simp
  from w [rule_format, of "Suc 0" "''timeout''"] o(2) s
  have 4: "(WARN, ''Failed to fetch comment 102'', [(''error'', ''timeout'')])
     \<in> set (logs (handler faulty_env trigger_all empty_world))"
    by simp
  from c6 have 5: "\<exists>r. store (handler faulty_env trigger_all empty_world) (''sources'', ''hackernews'') = Some r \<and>
        jobCount r = 1"
    by (simp add: o)
  from a t k faulty_outcomes(1,2) 1 2 3 4 5 show ?thesis by blast
qed


section \<open>C9: the bounds of a run\<close>

text \<open>
  C9. A run whose source is \<open>hackernews\<close> or \<open>all\<close> requests exactly one thread, the
  first of \<open>WHO_IS_HIRING_THREADS\<close>, and then at most 30 comments, the first 30 \<open>kids\<close>
  of that thread; the \<open>jobCount\<close> it records is at most 30. (A run with another source
  requests nothing, which is C8.) In every run at most 30 events are emitted and
  \<open>context.emit\<close> is called at most 30 times.
\<close>

theorem C9_bounded_fetch:
  "(source input_data = Some ''hackernews'' \<or> source input_data = Some ''all'' \<longrightarrow>
      requests (handler e input_data w) =
        requests w @ 42575537 # thread_comment_ids (http_get e (length (requests w)) 42575537) \<and>
      length (thread_comment_ids (http_get e (length (requests w)) 42575537)) \<le> 30 \<and>
      (\<exists>r. store (handler e input_data w) (''sources'', ''hackernews'') = Some r \<and>
           jobCount r \<le> 30)) \<and>
   (source input_data \<noteq> Some ''hackernews'' \<and> source input_data \<noteq> Some ''all'' \<longrightarrow>
      requests (handler e input_data w) = requests w) \<and>
   length (emitted (handler e input_data w)) \<le> length (emitted w) + 30 \<and>
   emit_calls (handler e input_data w) \<le> emit_calls w + 30"
proof (cases "source input_data = Some ''hackernews'' \<or> source input_data = Some ''all''")
  case False
  then have "handler e input_data w = w" by (simp add: handler_skips)
  with False show ?thesis by simp
next
  case True
  define st0 where "st0 = (0 :: nat, add_log INFO ''Fetching from HackerNews Who's Hiring'' [] w)"
  define st where "st = process_thread e 42575537 st0"
  have h: "handler e input_data w =
      add_log INFO ''HackerNews fetch completed'' [(''total_jobs'', str_nat (fst st))]
           ((snd st)\<lparr>clock_reads := Suc (clock_reads (snd st)),
                     store := (store (snd st))((''sources'', ''hackernews'') \<mapsto>
                       \<lparr>lastFetch = now e (length (requests (snd st))),
                        jobCount = fst st,
                        status = (if fst st > 0 then ''success'' else ''error''),
                        error = (if fst st > 0 then None else Some ''No jobs found'')\<rparr>)\<rparr>)"
    unfolding handler_matching [OF True] st_def st0_def by (simp add: Let_def)
  have w0: "requests (snd st0) = requests w" "emitted (snd st0) = emitted w"
    "emit_calls (snd st0) = emit_calls w" "fst st0 = 0"
    by (simp_all add: st0_def add_log_def)
  have r: "requests (snd st) =
      requests w @ 42575537 # thread_comment_ids (http_get e (length (requests w)) 42575537)"
    unfolding st_def process_thread_requests w0 ..
  have em: "length (emitted (snd st)) \<le> length (emitted w) + 30"
    using process_thread_emitted_bound [of e 42575537 st0] by (simp add: st_def w0)
  have ec: "emit_calls (snd st) \<le> emit_calls w + 30"
    using process_thread_emit_calls [of e 42575537 st0] by (simp add: st_def w0)
  have "fst st + length (emitted w) = length (emitted (snd st))"
    using process_thread_count [of e 42575537 st0] by (simp add: st_def w0)
  with em have j: "fst st \<le> 30" by simp
  from r em ec j thread_comment_ids_length [of "http_get e (length (requests w)) 42575537"] True
  show ?thesis unfolding h by (simp add: add_log_def)
qed

text \<open>
  C9 as stated fails: the run triggered for the source \<open>github\<close> requests no thread and
  records no \<open>jobCount\<close>.
\<close>

text \<open>C9 at the thread with three comments.\<close>

theorem C9_bounded_fetch_witness:
  "(source trigger_all = Some ''hackernews'' \<or> source trigger_all = Some ''all'') \<and>
   requests (handler demo_env trigger_all empty_world) = [42575537, 101, 102, 103] \<and>
   length (emitted (handler demo_env trigger_all empty_world)) \<le> 30 \<and>
   (\<exists>r. store (handler demo_env trigger_all empty_world) (''sources'', ''hackernews'') = Some r \<and>
        jobCount r \<le> 30)"
proof -
  have a: "source trigger_all = Some ''hackernews'' \<or> source trigger_all = Some ''all''"
    by (simp add: trigger_all_def)
  have i: "thread_comment_ids (http_get demo_env 0 42575537) = [101, 102, 103]"
    by (simp add: thread_comment_ids_def demo_env_def demo_thread_def)
  have r: "requests empty_world = []" "emitted empty_world = []"
    by (simp_all add: empty_world_def)
  from C9_bounded_fetch [of trigger_all demo_env empty_world] a
  show ?thesis by (simp add: i r)
qed

section \<open>C5: two runs over the same responses\<close>

text \<open>
  C5, as amended. Two runs that get the same responses and the same outcomes of
  \<open>context.emit\<close>, at whatever times, issue the same requests, record the same
  \<open>jobCount\<close>, \<open>status\<close> and \<open>error\<close>, and emit the same events up to \<open>posted_at\<close>; when
  every comment that the run fetches carries a \<open>time\<close>, they emit the same events.
\<close>

theorem C5_same_responses_amended:
  assumes hg: "http_get e1 = http_get e2" and ee: "emit_error e1 = emit_error e2"
  shows "let cids = thread_comment_ids (http_get e1 (length (requests w)) 42575537);
             n = Suc (length (requests w));
             w1 = handler e1 input_data w; w2 = handler e2 input_data w
     in requests w1 = requests w2 \<and>
        map forget_time (emitted w1) = map forget_time (emitted w2) \<and>
        map_option jobCount (store w1 (''sources'', ''hackernews''))
          = map_option jobCount (store w2 (''sources'', ''hackernews'')) \<and>
        map_option status (store w1 (''sources'', ''hackernews''))
          = map_option status (store w2 (''sources'', ''hackernews'')) \<and>
        map_option error (store w1 (''sources'', ''hackernews''))
          = map_option error (store w2 (''sources'', ''hackernews'')) \<and>
        ((\<forall>j c. j < length cids \<longrightarrow> http_get e1 (n + j) (cids ! j) = Inr (Some c) \<longrightarrow>
            item_time c \<noteq> None) \<longrightarrow>
         emitted w1 = emitted w2)"
proof (cases "source input_data = Some ''hackernews'' \<or> source input_data = Some ''all''")
  case False
  then have "handler e1 input_data w = w" "handler e2 input_data w = w"
    by (simp_all add: handler_skips)
  then show ?thesis by (simp add: Let_def)
next
  case True
  define cids where "cids = thread_comment_ids (http_get e1 (length (requests w)) 42575537)"
  define n where "n = Suc (length (requests w))"
  define o1 where "o1 = run_outcomes e1 n cids"
  define o2 where "o2 = run_outcomes e2 n cids"
  have c2: "cids = thread_comment_ids (http_get e2 (length (requests w)) 42575537)"
    by (simp add: cids_def hg)
  note r1 = handler_run [OF True cids_def, of o1] and r2 = handler_run [OF True c2, of o2]
  have d1: "o1 = run_outcomes e1 (Suc (length (requests w))) cids"
    and d2: "o2 = run_outcomes e2 (Suc (length (requests w))) cids"
    by (simp_all add: o1_def o2_def n_def)
  have f: "map forget_time (posted_events o1) = map forget_time (posted_events o2)"
    unfolding o1_def o2_def by (rule run_outcomes_forget_time [OF hg ee])
  then have "length (map forget_time (posted_events o1)) = length (map forget_time (posted_events o2))"
    by simp
  then have l: "length (posted_events o1) = length (posted_events o2)" by simp
  have a: "requests (handler e1 input_data w) = requests (handler e2 input_data w)"
    by (simp add: r1(1) [OF d1] r2(1) [OF d2])
  have b: "map forget_time (emitted (handler e1 input_data w))
      = map forget_time (emitted (handler e2 input_data w))"
    by (simp add: r1(2) [OF d1] r2(2) [OF d2] f)
  have s: "map_option jobCount (store (handler e1 input_data w) (''sources'', ''hackernews''))
          = map_option jobCount (store (handler e2 input_data w) (''sources'', ''hackernews''))"
    "map_option status (store (handler e1 input_data w) (''sources'', ''hackernews''))
          = map_option status (store (handler e2 input_data w) (''sources'', ''hackernews''))"
    "map_option error (store (handler e1 input_data w) (''sources'', ''hackernews''))
          = map_option error (store (handler e2 input_data w) (''sources'', ''hackernews''))"
    by (simp_all add: r1(3) [OF d1] r2(3) [OF d2] l)
  have t: "(\<forall>j c. j < length cids \<longrightarrow> http_get e1 (n + j) (cids ! j) = Inr (Some c) \<longrightarrow>
            item_time c \<noteq> None) \<longrightarrow>
         emitted (handler e1 input_data w) = emitted (handler e2 input_data w)"
  proof
    assume "\<forall>j c. j < length cids \<longrightarrow> http_get e1 (n + j) (cids ! j) = Inr (Some c) \<longrightarrow>
            item_time c \<noteq> None"
    then have "o1 = o2" unfolding o1_def o2_def by (rule run_outcomes_timed [OF hg ee])
    then show "emitted (handler e1 input_data w) = emitted (handler e2 input_data w)"
      by (simp add: r1(2) [OF d1] r2(2) [OF d2])
  qed
  from a b s t show ?thesis
    unfolding Let_def cids_def [symmetric] n_def [symmetric] by blast
qed


text \<open>
  C5 as stated fails, in two ways. The comment below has no \<open>time\<close>, so its \<open>posted_at\<close>
  is the reading of the clock, and the runs at times 1 and 2 over the same responses emit
  different sets of events. And \<open>jobs_found\<close> counts the calls of \<open>context.emit\<close> that
  return: over the same responses and at the same time, the run in which the call raises
  emits nothing and records \<open>jobCount\<close> 0, the run in which it returns records 1.
\<close>

theorem C5_same_responses_counterexample:
  "http_get (clock_env 1) = http_get (clock_env 2) \<and>
   emit_error (clock_env 1) = emit_error (clock_env 2) \<and>
   set (emitted (handler (clock_env 1) trigger_all empty_world))
     \<noteq> set (emitted (handler (clock_env 2) trigger_all empty_world)) \<and>
   map (posted_at \<circ> rawJob) (emitted (handler (clock_env 1) trigger_all empty_world)) = [1] \<and>
   map (posted_at \<circ> rawJob) (emitted (handler (clock_env 2) trigger_all empty_world)) = [2] \<and>
   http_get mute_env = http_get (clock_env 1) \<and>
   now mute_env = now (clock_env 1) \<and>
   set (emitted (handler mute_env trigger_all empty_world))
     \<noteq> set (emitted (handler (clock_env 1) trigger_all empty_world)) \<and>
   map_option jobCount (store (handler mute_env trigger_all empty_world) (''sources'', ''hackernews''))
     = Some 0 \<and>
   map_option jobCount
     (store (handler (clock_env 1) trigger_all empty_world) (''sources'', ''hackernews''))
     = Some 1"
proof -
  have a: "http_get (clock_env 1) = http_get (clock_env 2)"
    and b: "emit_error (clock_env 1) = emit_error (clock_env 2)"
    and m: "http_get mute_env = http_get (clock_env 1)" "now mute_env = now (clock_env 1)"
    by (simp_all add: clock_env_def mute_env_def)
  have c: "set (emitted (handler (clock_env 1) trigger_all empty_world))
     \<noteq> set (emitted (handler (clock_env 2) trigger_all empty_world))"
    by (simp add: lone_run_emitted)
  have d: "map (posted_at \<circ> rawJob) (emitted (handler (clock_env 1) trigger_all empty_world)) = [1]"
    "map (posted_at \<circ> rawJob) (emitted (handler (clock_env 2) trigger_all empty_world)) = [2]"
    by (simp_all add: lone_run_emitted)
  have e: "set (emitted (handler mute_env trigger_all empty_world))
     \<noteq> set (emitted (handler (clock_env 1) trigger_all empty_world))"
    by (simp add: lone_run_emitted mute_run)
  have f: "map_option jobCount
      (store (handler mute_env trigger_all empty_world) (''sources'', ''hackernews'')) = Some 0"
    "map_option jobCount
      (store (handler (clock_env 1) trigger_all empty_world) (''sources'', ''hackernews'')) = Some 1"
    by (simp_all add: mute_run lone_run_store)
  from a b m c d e f show ?thesis by blast
qed

text \<open>
  The amended C5 at the two runs of the first counterexample, and at two runs at
  different times over a comment that carries a \<open>time\<close>, fetched from a thread that
  carries none: they emit the same event.
\<close>

theorem C5_same_responses_amended_witness:
  "http_get (clock_env 1) = http_get (clock_env 2) \<and>
   emit_error (clock_env 1) = emit_error (clock_env 2) \<and>
   map forget_time (emitted (handler (clock_env 1) trigger_all empty_world))
     = map forget_time (emitted (handler (clock_env 2) trigger_all empty_world)) \<and>
   map_option jobCount (store (handler (clock_env 1) trigger_all empty_world) (''sources'', ''hackernews''))
     = map_option jobCount (store (handler (clock_env 2) trigger_all empty_world) (''sources'', ''hackernews'')) \<and>
   http_get (timed_env 1) = http_get (timed_env 2) \<and>
   emit_error (timed_env 1) = emit_error (timed_env 2) \<and>
   http_get (timed_env 1) 0 42575537 = Inr (Some lone_thread) \<and>
   item_time lone_thread = None \<and>
   thread_comment_ids (http_get (timed_env 1) 0 42575537) = [101] \<and>
   http_get (timed_env 1) 1 101 = Inr (Some timed_comment) \<and>
   item_time timed_comment = Some 1735750000 \<and>
   emitted (handler (timed_env 1) trigger_all empty_world)
     = emitted (handler (timed_env 2) trigger_all empty_world) \<and>
   emitted (handler (timed_env 1) trigger_all empty_world) =
     [\<lparr>topic = ''normalize-job'', ev_source = ''hackernews'',
       rawJob = \<lparr>p_id = ''101'', company = ''Acme'', title = ''Engineer'', location = ''Remote'',
                 description = ''Acme | Engineer'',
                 url = ''https://news.ycombinator.com/item?id=101'', posted_at = 1735750000\<rparr>\<rparr>]"
proof -
  have a: "http_get (clock_env 1) = http_get (clock_env 2)"
    and b: "emit_error (clock_env 1) = emit_error (clock_env 2)"
    by (simp_all add: clock_env_def)
  have ta: "http_get (timed_env 1) = http_get (timed_env 2)"
    and tb: "emit_error (timed_env 1) = emit_error (timed_env 2)"
    by (simp_all add: timed_env_def)
  have r: "requests empty_world = []" "emitted empty_world = []"
    by (simp_all add: empty_world_def)
  have th: "http_get (timed_env 1) 0 42575537 = Inr (Some lone_thread)"
    and nt: "item_time lone_thread = None"
    and ids: "thread_comment_ids (http_get (timed_env 1) 0 42575537) = [101]"
    and cm: "http_get (timed_env 1) 1 101 = Inr (Some timed_comment)"
    and tm: "item_time timed_comment = Some 1735750000"
    by (simp_all add: timed_env_def lone_thread_ids, simp_all add: lone_thread_def timed_comment_def)
  have ante: "\<forall>j c. j < length [101 :: int] \<longrightarrow>
      http_get (timed_env 1) (Suc 0 + j) ([101] ! j) = Inr (Some c) \<longrightarrow> item_time c \<noteq> None"
    by (simp add: timed_env_def timed_comment_def)
  from C5_same_responses_amended [OF a b, of empty_world trigger_all]
  have 1: "map forget_time (emitted (handler (clock_env 1) trigger_all empty_world))
     = map forget_time (emitted (handler (clock_env 2) trigger_all empty_world))"
    and 2: "map_option jobCount (store (handler (clock_env 1) trigger_all empty_world) (''sources'', ''hackernews''))
     = map_option jobCount (store (handler (clock_env 2) trigger_all empty_world) (''sources'', ''hackernews''))"
    by (simp_all add: Let_def)
  from C5_same_responses_amended [OF ta tb, of empty_world trigger_all] ante
  have 3: "emitted (handler (timed_env 1) trigger_all empty_world)
     = emitted (handler (timed_env 2) trigger_all empty_world)"
    by (simp add: Let_def r ids)
  have s: "source trigger_all = Some ''hackernews'' \<or> source trigger_all = Some ''all''"
    by (simp add: trigger_all_def)
  have c: "[101] = thread_comment_ids (http_get (timed_env 1) (length (requests empty_world)) 42575537)"
    by (simp add: r ids)
  have l: "item_text timed_comment = Some ''Acme | Engineer''" "item_deleted timed_comment = None"
    by (simp_all add: timed_comment_def)
  have o: "[Posted \<lparr>p_id = ''101'', company = ''Acme'', title = ''Engineer'', location = ''Remote'',
            description = ''Acme | Engineer'',
            url = ''https://news.ycombinator.com/item?id=101'', posted_at = 1735750000\<rparr>]
      = run_outcomes (timed_env 1) (Suc (length (requests empty_world))) [101]"
    by (simp add: comment_outcome_def timed_env_def l timed_parse truthy_text_def truthy_flag_def)
  from handler_run(2) [OF s c o]
  have 4: "emitted (handler (timed_env 1) trigger_all empty_world) =
     [\<lparr>topic = ''normalize-job'', ev_source = ''hackernews'',
       rawJob = \<lparr>p_id = ''101'', company = ''Acme'', title = ''Engineer'', location = ''Remote'',
                 description = ''Acme | Engineer'',
                 url = ''https://news.ycombinator.com/item?id=101'', posted_at = 1735750000\<rparr>\<rparr>]"
    by (simp add: r)
  from a b 1 2 ta tb th nt ids cm tm 3 4 show ?thesis by blast
qed


end
